theory Spec2Isabelle
  imports Complex_Main "HOL-Library.AList"
begin

section \<open>F1 telemetry replay: the data processor\<close>

text \<open>
  A shallow embedding of \<^verbatim>\<open>src/backend/f1_data_processor.py\<close> (class
  \<^verbatim>\<open>F1DataProcessor\<close>) and of the constant \<^verbatim>\<open>FPS\<close> of
  \<^verbatim>\<open>src/backend/config.py\<close>.

  Conventions of the embedding:
  \<^item> A Python or numpy float is a \<^typ>\<open>real\<close>: arithmetic is exact, and comparison is
    the order of the reals. The one place where the source leaves the finite floats
    (a division by a zero extent in the track normalisation, which numpy answers with
    \<open>inf\<close>) is a branch of its own.
  \<^item> An exception is a value \<open>Inl e\<close> of a sum type. A method that mutates the processor
    takes the processor and returns the new one, also when it raises.
  \<^item> The FastF1 session is data: the tables and answers the source reads from it,
    together with the calls that may raise.
\<close>

subsection \<open>Errors\<close>

datatype error =
    ExternalError        \<comment> \<open>raised inside the FastF1 library (fetch, telemetry extraction)\<close>
  | TypeError
  | ValueError
  | ZeroDivisionError
  | AttributeError

subsection \<open>Numeric primitives of Python and numpy\<close>

text \<open>\<^verbatim>\<open>round(x, n)\<close>: to the nearest multiple of \<open>10\<^sup>-\<^sup>n\<close>, a tie going to the even one.\<close>

definition round_half_even :: "real \<Rightarrow> int" where
  "round_half_even x =
     (let f = \<lfloor>x\<rfloor>; d = x - of_int f
      in if d < 1 / 2 then f
         else if 1 / 2 < d then f + 1
         else if even f then f else f + 1)"

definition py_round :: "real \<Rightarrow> nat \<Rightarrow> real" where
  "py_round x n = of_int (round_half_even (x * 10 ^ n)) / 10 ^ n"

text \<open>\<^verbatim>\<open>a.min()\<close> and \<^verbatim>\<open>a.max()\<close> of a non-empty array (on an empty one numpy raises
  ValueError; every caller below tests for emptiness first).\<close>

definition amin :: "real list \<Rightarrow> real" where
  "amin a = Min (set a)"

definition amax :: "real list \<Rightarrow> real" where
  "amax a = Max (set a)"

text \<open>\<^verbatim>\<open>np.arange(start, stop, step)\<close>: \<open>\<lceil>(stop - start) / step\<rceil>\<close> values
  \<open>start + k * step\<close> (none when that count is not positive).\<close>

definition arange :: "real \<Rightarrow> real \<Rightarrow> real \<Rightarrow> real list" where
  "arange start stop step =
     map (\<lambda>k. start + real k * step) [0..<nat \<lceil>(stop - start) / step\<rceil>]"

text \<open>\<^verbatim>\<open>np.searchsorted(a, v)\<close> with the default \<^verbatim>\<open>side='left'\<close>: numpy's binary search
  between \<open>lo\<close> and \<open>hi\<close>, which moves right past every element smaller than the key.\<close>

function binsearch_left :: "real list \<Rightarrow> real \<Rightarrow> nat \<Rightarrow> nat \<Rightarrow> nat" where
  "binsearch_left a key lo hi =
     (if lo < hi then
        (let mid = lo + (hi - lo) div 2
         in if a ! mid < key then binsearch_left a key (mid + 1) hi
            else binsearch_left a key lo mid)
      else lo)"
  by pat_completeness auto
termination
  by (relation "measure (\<lambda>(a, key, lo, hi). hi - lo)") auto

definition searchsorted :: "real list \<Rightarrow> real \<Rightarrow> nat" where
  "searchsorted a v = binsearch_left a v 0 (length a)"

text \<open>The two lines shared by the driver lookup and the weather lookup:
  \<^verbatim>\<open>idx = np.searchsorted(ts, t); idx = min(idx, len(ts) - 1)\<close>.
  Both callers pass a non-empty array, so \<open>len(ts) - 1\<close> is not negative.\<close>

definition sample_index :: "real list \<Rightarrow> real \<Rightarrow> nat" where
  "sample_index ts t = min (searchsorted ts t) (length ts - 1)"

subsection \<open>Python slices and hexadecimal literals\<close>

text \<open>\<^verbatim>\<open>xs[start:stop]\<close>: CPython adjusts each index against the length \<open>n\<close> (a negative
  index has \<open>n\<close> added once and is then raised to 0; an index beyond \<open>n\<close> is lowered to
  \<open>n\<close>) and returns the elements from the adjusted start up to the adjusted stop.\<close>

definition adjust_index :: "int \<Rightarrow> int \<Rightarrow> int" where
  "adjust_index n i =
     (if i < 0 then (if i + n < 0 then 0 else i + n)
      else if n \<le> i then n else i)"

definition py_slice :: "'a list \<Rightarrow> int \<Rightarrow> int \<Rightarrow> 'a list" where
  "py_slice xs start stop =
     (let n = int (length xs);
          s = adjust_index n start;
          e = adjust_index n stop
      in if s < e then take (nat (e - s)) (drop (nat s) xs) else [])"

text \<open>\<^verbatim>\<open>int(s, 16)\<close> for a string \<open>s\<close> of at most two ASCII characters, which is all the
  colour extraction passes: surrounding whitespace is dropped, one sign is allowed, and
  what is left must be one or two hexadecimal digits.\<close>

definition is_space :: "char \<Rightarrow> bool" where
  "is_space c = (let k = of_char c :: nat in (9 \<le> k \<and> k \<le> 13) \<or> (28 \<le> k \<and> k \<le> 32))"

definition hex_digit :: "char \<Rightarrow> nat option" where
  "hex_digit c =
     (let k = of_char c :: nat
      in if 48 \<le> k \<and> k \<le> 57 then Some (k - 48)
         else if 65 \<le> k \<and> k \<le> 70 then Some (k - 55)
         else if 97 \<le> k \<and> k \<le> 102 then Some (k - 87)
         else None)"

fun hex_value :: "nat \<Rightarrow> string \<Rightarrow> nat option" where
  "hex_value acc [] = Some acc"
| "hex_value acc (c # cs) =
     (case hex_digit c of None \<Rightarrow> None | Some d \<Rightarrow> hex_value (16 * acc + d) cs)"

definition int16 :: "string \<Rightarrow> error + int" where
  "int16 s =
     (let s1 = rev (dropWhile is_space (rev (dropWhile is_space s)));
          neg = (s1 \<noteq> [] \<and> hd s1 = CHR ''-'');
          s2 = (if s1 \<noteq> [] \<and> (hd s1 = CHR ''-'' \<or> hd s1 = CHR ''+'') then tl s1 else s1)
      in if s2 = [] then Inl ValueError
         else (case hex_value 0 s2 of
                 None \<Rightarrow> Inl ValueError
               | Some v \<Rightarrow> Inr (if neg then - int v else int v)))"

subsection \<open>The tables read from the session\<close>

text \<open>One row of a lap's telemetry table (\<^verbatim>\<open>lap.get_telemetry()\<close>), with the columns the
  processor reads; \<open>SessionTime\<close> is already in seconds.\<close>

record tel_row =
  tel_SessionTime :: real
  tel_X :: real
  tel_Y :: real
  tel_Distance :: real
  tel_Speed :: real
  tel_nGear :: int
  tel_Throttle :: real
  tel_Brake :: real
  tel_DRS :: int

text \<open>One row of \<^verbatim>\<open>session.laps\<close>. \<open>lap_Compound\<close> is the string \<^verbatim>\<open>str(lap.Compound)\<close>;
  \<open>lap_telemetry\<close> is what \<^verbatim>\<open>lap.get_telemetry()\<close> answers, which may raise.\<close>

record lap =
  lap_DriverNumber :: string
  lap_Driver :: string
  lap_LapNumber :: int
  lap_Compound :: string
  lap_telemetry :: "error + tel_row list"

record weather_row =
  wt_Time :: real
  wt_TrackTemp :: real
  wt_AirTemp :: real
  wt_Humidity :: real
  wt_WindSpeed :: real
  wt_Rainfall :: bool

text \<open>A loaded session: the driver numbers with their abbreviations, the laps table, the
  weather table (absent, or a list of rows), the driver colour mapping, the telemetry of
  the fastest lap and the circuit rotation (absent when the circuit information has no
  such attribute). The last three come from calls the source wraps in \<^verbatim>\<open>try\<close>.\<close>

record session =
  s_drivers :: "string list"
  s_abbreviation :: "string \<Rightarrow> string"
  s_laps :: "lap list"
  s_weather_data :: "weather_row list option"
  s_color_mapping :: "error + (string \<times> string) list"
  s_fastest_lap_telemetry :: "error + tel_row list"
  s_circuit_rotation :: "error + real option"

subsection \<open>The processor's state\<close>

record color =
  c_hex :: string
  c_rgb :: "int list"

text \<open>\<^verbatim>\<open>track_coords\<close>: the empty dictionary of \<^verbatim>\<open>__init__\<close>, the dictionary with
  empty \<open>x\<close> and \<open>y\<close> of the \<^verbatim>\<open>except\<close> branch, the full geometry, or the geometry of a
  track of zero extent (its distance column and offsets; the scale is \<open>inf\<close> and every
  coordinate \<open>nan\<close>).\<close>

record geometry =
  g_x :: "real list"
  g_y :: "real list"
  g_distance :: "real list"
  g_width :: int
  g_height :: int
  g_scale :: real
  g_offset_x :: real
  g_offset_y :: real

datatype track_coords =
    TrackUnset
  | TrackEmpty
  | Track geometry
  | TrackNonFinite "real list" real real

text \<open>A driver's entry of a frame. \<open>sn_x\<close> and \<open>sn_y\<close> are \<open>None\<close> when the float is not
  finite (only under \<open>TrackNonFinite\<close>).\<close>

record snapshot =
  sn_x :: "real option"
  sn_y :: "real option"
  sn_dist :: real
  sn_speed :: real
  sn_gear :: int
  sn_throttle :: real
  sn_brake :: real
  sn_drs :: int
  sn_lap :: int
  sn_tyre :: string

record weather =
  w_track_temp :: real
  w_air_temp :: real
  w_humidity :: real
  w_wind_speed :: real
  w_rainfall :: bool

text \<open>A frame: \<open>f_drivers\<close> is the dictionary \<^verbatim>\<open>frame['drivers']\<close> in insertion order,
  \<open>f_weather\<close> is \<open>None\<close> while the frame has no \<^verbatim>\<open>'weather'\<close> key.\<close>

record frame =
  f_t :: real
  f_drivers :: "(string \<times> snapshot) list"
  f_weather :: "weather option"

datatype session_handle =
    NoSession                 \<comment> \<open>\<^verbatim>\<open>None\<close>, before any load\<close>
  | Unloaded                  \<comment> \<open>a session object whose \<^verbatim>\<open>load\<close> raised\<close>
  | LoadedSession session

record processor =
  p_session :: session_handle
  p_frames :: "frame list"
  p_driver_colors :: "(string \<times> color) list"
  p_track_coords :: track_coords

definition init :: processor where
  "init = \<lparr>p_session = NoSession, p_frames = [], p_driver_colors = [],
            p_track_coords = TrackUnset\<rparr>"

definition FPS :: int where
  "FPS = 25"

subsection \<open>\<^verbatim>\<open>_extract_driver_colors\<close>\<close>

text \<open>One entry of the colour mapping: every leading \<open>#\<close> is stripped, and the three
  two-character slices at 0, 2 and 4 are read as hexadecimal.\<close>

definition parse_color :: "string \<Rightarrow> error + color" where
  "parse_color hex_color =
     (let h = dropWhile (\<lambda>c. c = CHR ''#'') hex_color
      in case int16 (take 2 h) of
           Inl e \<Rightarrow> Inl e
         | Inr r \<Rightarrow>
             (case int16 (take 2 (drop 2 h)) of
                Inl e \<Rightarrow> Inl e
              | Inr g \<Rightarrow>
                  (case int16 (take 2 (drop 4 h)) of
                     Inl e \<Rightarrow> Inl e
                   | Inr b \<Rightarrow> Inr \<lparr>c_hex = CHR ''#'' # h, c_rgb = [r, g, b]\<rparr>)))"

fun color_loop :: "(string \<times> string) list \<Rightarrow> (string \<times> color) list
    \<Rightarrow> error + (string \<times> color) list" where
  "color_loop [] colors = Inr colors"
| "color_loop ((driver, hex_color) # rest) colors =
     (case parse_color hex_color of
        Inl e \<Rightarrow> Inl e
      | Inr c \<Rightarrow> color_loop rest (AList.update driver c colors))"

text \<open>Any exception, from the library or from the parsing, leaves the empty table.\<close>

definition extract_driver_colors :: "session \<Rightarrow> (string \<times> color) list" where
  "extract_driver_colors s =
     (case s_color_mapping s of
        Inl e \<Rightarrow> []
      | Inr color_mapping \<Rightarrow>
          (case color_loop color_mapping [] of Inl e \<Rightarrow> [] | Inr colors \<Rightarrow> colors))"

subsection \<open>\<^verbatim>\<open>_extract_track_coords\<close>\<close>

definition deg2rad :: "real \<Rightarrow> real" where
  "deg2rad d = d * pi / 180"

text \<open>The normalisation of the (rotated) coordinates. \<^verbatim>\<open>x.min()\<close> raises on an empty
  column, which the caller's \<^verbatim>\<open>except\<close> turns into the empty track; a zero extent in both
  directions makes the scale \<open>inf\<close>.\<close>

definition normalize_track :: "real list \<Rightarrow> real list \<Rightarrow> real list \<Rightarrow> track_coords" where
  "normalize_track x y distance =
     (if x = [] \<or> y = [] then TrackEmpty
      else
        (let x_min = amin x; x_max = amax x;
             y_min = amin y; y_max = amax y;
             extent = max (x_max - x_min) (y_max - y_min)
         in if extent = 0 then TrackNonFinite distance x_min y_min
            else
              (let scale = 800 / extent
               in Track \<lparr>g_x = map (\<lambda>v. (v - x_min) * scale + 100) x,
                         g_y = map (\<lambda>v. (v - y_min) * scale + 100) y,
                         g_distance = distance,
                         g_width = 1000, g_height = 1000,
                         g_scale = scale,
                         g_offset_x = x_min, g_offset_y = y_min\<rparr>)))"

definition extract_track_coords :: "session \<Rightarrow> track_coords" where
  "extract_track_coords s =
     (case s_fastest_lap_telemetry s of
        Inl e \<Rightarrow> TrackEmpty
      | Inr telemetry \<Rightarrow>
          (case s_circuit_rotation s of
             Inl e \<Rightarrow> TrackEmpty
           | Inr r \<Rightarrow>
               (let rotation = (case r of None \<Rightarrow> 0 | Some d \<Rightarrow> d);
                    x = map tel_X telemetry;
                    y = map tel_Y telemetry;
                    rad = deg2rad rotation;
                    x_rot = map (\<lambda>(u, v). u * cos rad - v * sin rad) (zip x y);
                    y_rot = map (\<lambda>(u, v). u * sin rad + v * cos rad) (zip x y)
                in if rotation \<noteq> 0
                   then normalize_track x_rot y_rot (map tel_Distance telemetry)
                   else normalize_track x y (map tel_Distance telemetry))))"

subsection \<open>\<^verbatim>\<open>_process_frames\<close> and \<^verbatim>\<open>_add_weather_to_frames\<close>\<close>

text \<open>A row of a driver's \<^verbatim>\<open>arrays\<close>. The source keeps eleven parallel lists and extends
  all of them by the same number of entries for each lap, so entry \<open>i\<close> of every list
  belongs to the same telemetry row: the lists are modelled as one list of rows. (The
  \<^verbatim>\<open>'UNKNOWN'\<close> tyre of the source needs a tyre list shorter than the time list, which
  this lockstep extension never produces.)\<close>

record sample =
  a_t :: real
  a_x :: real
  a_y :: real
  a_dist :: real
  a_speed :: real
  a_gear :: int
  a_throttle :: real
  a_brake :: real
  a_drs :: int
  a_lap :: int
  a_tyre :: string

definition lap_samples :: "lap \<Rightarrow> tel_row list \<Rightarrow> sample list" where
  "lap_samples l tel =
     map (\<lambda>r. \<lparr>a_t = tel_SessionTime r, a_x = tel_X r, a_y = tel_Y r,
                a_dist = tel_Distance r, a_speed = tel_Speed r, a_gear = tel_nGear r,
                a_throttle = tel_Throttle r, a_brake = tel_Brake r, a_drs = tel_DRS r,
                a_lap = lap_LapNumber l, a_tyre = lap_Compound l\<rparr>) tel"

text \<open>The loop over one driver's laps: an exception of \<^verbatim>\<open>get_telemetry\<close> is not caught, an
  empty table is skipped.\<close>

fun collect_laps :: "lap list \<Rightarrow> sample list \<Rightarrow> error + sample list" where
  "collect_laps [] arrays = Inr arrays"
| "collect_laps (l # ls) arrays =
     (case lap_telemetry l of
        Inl e \<Rightarrow> Inl e
      | Inr tel \<Rightarrow>
          if tel = [] then collect_laps ls arrays
          else collect_laps ls (arrays @ lap_samples l tel))"

definition pick_drivers :: "session \<Rightarrow> string \<Rightarrow> lap list" where
  "pick_drivers s driver_no = filter (\<lambda>l. lap_DriverNumber l = driver_no) (s_laps s)"

record collected =
  all_data :: "(string \<times> sample list) list"
  global_t_min :: "real option"
  global_t_max :: "real option"

text \<open>The loop over the drivers. \<open>all_data\<close> is a dictionary: a code met again takes the
  new arrays and keeps its place.\<close>

fun collect_drivers :: "session \<Rightarrow> string list \<Rightarrow> collected \<Rightarrow> error + collected" where
  "collect_drivers s [] acc = Inr acc"
| "collect_drivers s (driver_no # rest) acc =
     (let code = s_abbreviation s driver_no;
          laps = pick_drivers s driver_no
      in if laps = [] then collect_drivers s rest acc
         else
           (case collect_laps laps [] of
              Inl e \<Rightarrow> Inl e
            | Inr arrays \<Rightarrow>
                if arrays = [] then collect_drivers s rest acc
                else
                  (let t_min = amin (map a_t arrays);
                       t_max = amax (map a_t arrays)
                   in collect_drivers s rest
                        \<lparr>all_data = AList.update code arrays (all_data acc),
                         global_t_min =
                           Some (case global_t_min acc of None \<Rightarrow> t_min | Some g \<Rightarrow> min g t_min),
                         global_t_max =
                           Some (case global_t_max acc of None \<Rightarrow> t_max | Some g \<Rightarrow> max g t_max)\<rparr>)))"

text \<open>\<^verbatim>\<open>track_coords.get('scale', 1)\<close> (\<open>None\<close> for \<open>inf\<close>) and the two offsets.\<close>

fun track_scale :: "track_coords \<Rightarrow> real option" where
  "track_scale (Track g) = Some (g_scale g)"
| "track_scale (TrackNonFinite d ox oy) = None"
| "track_scale _ = Some 1"

fun track_offset_x :: "track_coords \<Rightarrow> real" where
  "track_offset_x (Track g) = g_offset_x g"
| "track_offset_x (TrackNonFinite d ox oy) = ox"
| "track_offset_x _ = 0"

fun track_offset_y :: "track_coords \<Rightarrow> real" where
  "track_offset_y (Track g) = g_offset_y g"
| "track_offset_y (TrackNonFinite d ox oy) = oy"
| "track_offset_y _ = 0"

definition norm_coord :: "real option \<Rightarrow> real \<Rightarrow> real \<Rightarrow> real option" where
  "norm_coord scale offset v =
     (case scale of None \<Rightarrow> None | Some k \<Rightarrow> Some (py_round ((v - offset) * k + 100) 1))"

definition driver_snapshot :: "track_coords \<Rightarrow> sample list \<Rightarrow> real \<Rightarrow> snapshot" where
  "driver_snapshot track data t =
     (let idx = sample_index (map a_t data) t;
          r = data ! idx
      in \<lparr>sn_x = norm_coord (track_scale track) (track_offset_x track) (a_x r),
          sn_y = norm_coord (track_scale track) (track_offset_y track) (a_y r),
          sn_dist = py_round (a_dist r) 1,
          sn_speed = py_round (a_speed r) 1,
          sn_gear = a_gear r,
          sn_throttle = py_round (a_throttle r) 1,
          sn_brake = py_round (a_brake r) 1,
          sn_drs = a_drs r,
          sn_lap = a_lap r,
          sn_tyre = a_tyre r\<rparr>)"

definition build_frame :: "(string \<times> sample list) list \<Rightarrow> track_coords \<Rightarrow> real \<Rightarrow> real \<Rightarrow> frame" where
  "build_frame data track t_min t =
     \<lparr>f_t = py_round (t - t_min) 3,
      f_drivers = map (\<lambda>(code, d). (code, driver_snapshot track d t)) data,
      f_weather = None\<rparr>"

definition weather_at :: "weather_row list \<Rightarrow> real \<Rightarrow> weather" where
  "weather_at rows t =
     (let row = rows ! sample_index (map wt_Time rows) t
      in \<lparr>w_track_temp = py_round (wt_TrackTemp row) 1,
          w_air_temp = py_round (wt_AirTemp row) 1,
          w_humidity = py_round (wt_Humidity row) 1,
          w_wind_speed = py_round (wt_WindSpeed row) 1,
          w_rainfall = wt_Rainfall row\<rparr>)"

definition add_weather_to_frames :: "weather_row list option \<Rightarrow> real list \<Rightarrow> frame list \<Rightarrow> frame list" where
  "add_weather_to_frames weather_df timeline frames =
     (case weather_df of
        None \<Rightarrow> frames
      | Some rows \<Rightarrow>
          if rows = [] then frames
          else map (\<lambda>(t, f). f\<lparr>f_weather := Some (weather_at rows t)\<rparr>) (zip timeline frames))"

text \<open>The frames \<^verbatim>\<open>_process_frames\<close> leaves in \<^verbatim>\<open>self.frames\<close>, or the exception it raises.
  Every exception of this model is raised before the assignment \<^verbatim>\<open>self.frames = []\<close>:
  by \<^verbatim>\<open>get_telemetry\<close>, by \<^verbatim>\<open>1 / fps\<close>, or by \<^verbatim>\<open>np.arange\<close> on the bounds that are
  still \<^verbatim>\<open>None\<close> when no driver contributed a row.\<close>

definition process_frames :: "session \<Rightarrow> track_coords \<Rightarrow> int \<Rightarrow> error + frame list" where
  "process_frames s track fps =
     (case collect_drivers s (s_drivers s)
             \<lparr>all_data = [], global_t_min = None, global_t_max = None\<rparr> of
        Inl e \<Rightarrow> Inl e
      | Inr c \<Rightarrow>
          if fps = 0 then Inl ZeroDivisionError
          else
            (case (global_t_min c, global_t_max c) of
               (Some t_min, Some t_max) \<Rightarrow>
                 (let dt = 1 / real_of_int fps;
                      timeline = arange t_min t_max dt
                  in Inr (add_weather_to_frames (s_weather_data s) timeline
                            (map (build_frame (all_data c) track t_min) timeline)))
             | _ \<Rightarrow> Inl TypeError))"

subsection \<open>\<^verbatim>\<open>load_and_process\<close>\<close>

text \<open>What the two FastF1 calls at the head of \<^verbatim>\<open>load_and_process\<close> do for the requested
  year, round and session type: \<^verbatim>\<open>get_session\<close> raises; or it returns a session object
  whose \<^verbatim>\<open>load\<close> raises; or the session loads.\<close>

datatype fetch =
    GetSessionFails
  | LoadFails
  | Loaded session

record summary =
  sm_total_frames :: nat
  sm_drivers :: "string list"
  sm_driver_colors :: "(string \<times> color) list"
  sm_track :: track_coords
  sm_total_laps :: int

text \<open>\<^verbatim>\<open>int(self.session.laps['LapNumber'].max())\<close>: the maximum of an empty column is
  \<open>nan\<close>, which \<^verbatim>\<open>int\<close> refuses.\<close>

definition max_lap_number :: "lap list \<Rightarrow> error + int" where
  "max_lap_number laps =
     (if laps = [] then Inl ValueError else Inr (Max (set (map lap_LapNumber laps))))"

text \<open>The method returns the processor as the call leaves it, and the summary or the
  exception. The assignments happen in the source's order: the session first, then the
  colours, then the track, then the frames.\<close>

definition load_and_process :: "processor \<Rightarrow> fetch \<Rightarrow> processor \<times> (error + summary)" where
  "load_and_process self src =
     (case src of
        GetSessionFails \<Rightarrow> (self, Inl ExternalError)
      | LoadFails \<Rightarrow> (self\<lparr>p_session := Unloaded\<rparr>, Inl ExternalError)
      | Loaded s \<Rightarrow>
          (let self1 = self\<lparr>p_session := LoadedSession s\<rparr>;
               self2 = self1\<lparr>p_driver_colors := extract_driver_colors s\<rparr>;
               self3 = self2\<lparr>p_track_coords := extract_track_coords s\<rparr>
           in case process_frames s (p_track_coords self3) FPS of
                Inl e \<Rightarrow> (self3, Inl e)
              | Inr frames \<Rightarrow>
                  (let self4 = self3\<lparr>p_frames := frames\<rparr>
                   in case max_lap_number (s_laps s) of
                        Inl e \<Rightarrow> (self4, Inl e)
                      | Inr n \<Rightarrow>
                          (self4,
                           Inr \<lparr>sm_total_frames = length (p_frames self4),
                                sm_drivers = map fst (p_driver_colors self4),
                                sm_driver_colors = p_driver_colors self4,
                                sm_track = p_track_coords self4,
                                sm_total_laps = n\<rparr>))))"

subsection \<open>\<^verbatim>\<open>get_frames\<close> and \<^verbatim>\<open>get_frame\<close>\<close>

definition get_frames :: "processor \<Rightarrow> int \<Rightarrow> int \<Rightarrow> frame list" where
  "get_frames self start end = py_slice (p_frames self) start end"

text \<open>\<open>None\<close> is the empty dictionary the source returns for an index out of range.\<close>

definition get_frame :: "processor \<Rightarrow> int \<Rightarrow> frame option" where
  "get_frame self index =
     (if 0 \<le> index \<and> index < int (length (p_frames self))
      then Some (p_frames self ! nat index) else None)"

text \<open>The reading of \<open>getFrames\<close> in the specification: the positions \<open>start \<le> i < end\<close>
  that exist, that is, both bounds clamped into \<open>0 .. length\<close>.\<close>

definition clamped_slice :: "'a list \<Rightarrow> int \<Rightarrow> int \<Rightarrow> 'a list" where
  "clamped_slice xs start end =
     map (\<lambda>i. xs ! i) [nat (max 0 start)..<nat (min (int (length xs)) end)]"

text \<open>A position counted from the end: a negative index \<open>i\<close> stands for \<open>length + i\<close>.\<close>

definition from_end :: "'a list \<Rightarrow> int \<Rightarrow> int" where
  "from_end xs i = (if i < 0 then int (length xs) + i else i)"

subsection \<open>\<^verbatim>\<open>get_tyre_strategy\<close>\<close>

record stint =
  st_compound :: string
  st_start_lap :: int
  st_end_lap :: int

record strategy =
  sg_driver :: string
  sg_color :: string
  sg_stints :: "stint list"

text \<open>\<^verbatim>\<open>if current_compound: stints.append(...)\<close>: the test is Python's truth value, so
  both \<open>None\<close> and the empty string skip the append.\<close>

definition append_stint :: "string option \<Rightarrow> int \<Rightarrow> int \<Rightarrow> stint list \<Rightarrow> stint list" where
  "append_stint current_compound stint_start end_lap stints =
     (case current_compound of
        None \<Rightarrow> stints
      | Some c \<Rightarrow>
          if c = [] then stints
          else stints @ [\<lparr>st_compound = c, st_start_lap = stint_start, st_end_lap = end_lap\<rparr>])"

text \<open>The loop over a driver's laps; its state is \<open>stints\<close>, \<open>current_compound\<close> and
  \<open>stint_start\<close>.\<close>

fun stint_loop :: "lap list \<Rightarrow> stint list \<Rightarrow> string option \<Rightarrow> int
    \<Rightarrow> stint list \<times> string option \<times> int" where
  "stint_loop [] stints current_compound stint_start = (stints, current_compound, stint_start)"
| "stint_loop (l # ls) stints current_compound stint_start =
     (let compound = lap_Compound l
      in if Some compound \<noteq> current_compound
         then stint_loop ls
                (append_stint current_compound stint_start (lap_LapNumber l - 1) stints)
                (Some compound) (lap_LapNumber l)
         else stint_loop ls stints current_compound stint_start)"

text \<open>\<open>driver_laps\<close> is never empty in the source (the driver is taken from the laps
  table). \<^verbatim>\<open>sort_values('LapNumber')\<close> is modelled by the stable \<open>sort_key\<close>; pandas
  fixes the order of laps with equal numbers no further.\<close>

definition driver_stints :: "lap list \<Rightarrow> stint list" where
  "driver_stints laps_of_driver =
     (let driver_laps = sort_key lap_LapNumber laps_of_driver
      in case stint_loop driver_laps [] None 1 of
           (stints, current_compound, stint_start) \<Rightarrow>
             append_stint current_compound stint_start
               (Max (set (map lap_LapNumber driver_laps))) stints)"

text \<open>\<^verbatim>\<open>laps['Driver'].unique()\<close>: the distinct values in the order of first appearance.\<close>

definition unique :: "'a list \<Rightarrow> 'a list" where
  "unique xs = rev (remdups (rev xs))"

definition get_tyre_strategy :: "processor \<Rightarrow> error + strategy list" where
  "get_tyre_strategy self =
     (case p_session self of
        NoSession \<Rightarrow> Inl AttributeError
      | Unloaded \<Rightarrow> Inl ExternalError
      | LoadedSession s \<Rightarrow>
          Inr (map (\<lambda>driver.
                 \<lparr>sg_driver = driver,
                  sg_color = (case map_of (p_driver_colors self) driver of
                                None \<Rightarrow> ''#ffffff'' | Some c \<Rightarrow> c_hex c),
                  sg_stints = driver_stints (filter (\<lambda>l. lap_Driver l = driver) (s_laps s))\<rparr>)
               (unique (map lap_Driver (s_laps s)))))"

subsection \<open>Notions used to state the properties\<close>

text \<open>\<open>covers a b stints\<close>: the stints, in their order, are non-empty lap ranges that
  start at \<open>a\<close>, follow one another without gap or overlap, and end at \<open>b\<close>.\<close>

fun covers :: "int \<Rightarrow> int \<Rightarrow> stint list \<Rightarrow> bool" where
  "covers a b [] = (a = b + 1)"
| "covers a b (s # ss) =
     (st_start_lap s = a \<and> a \<le> st_end_lap s \<and> covers (st_end_lap s + 1) b ss)"

text \<open>The laps of \<open>ls\<close> whose compound differs from the compound of the lap immediately
  before (\<open>previous\<close> for the first one), each with its number and compound.\<close>

fun compound_changes :: "string \<Rightarrow> lap list \<Rightarrow> (int \<times> string) list" where
  "compound_changes previous [] = []"
| "compound_changes previous (l # ls) =
     (if lap_Compound l \<noteq> previous
      then (lap_LapNumber l, lap_Compound l) # compound_changes (lap_Compound l) ls
      else compound_changes (lap_Compound l) ls)"

text \<open>The start lap and compound of each stint.\<close>

definition stint_starts :: "stint list \<Rightarrow> (int \<times> string) list" where
  "stint_starts ss = map (\<lambda>s. (st_start_lap s, st_compound s)) ss"

text \<open>The rows a driver contributes to the synthesis: the arrays the loop over the
  driver's laps builds (none when the driver has no laps or a lap raises).\<close>

definition driver_rows :: "session \<Rightarrow> string \<Rightarrow> sample list" where
  "driver_rows s driver_no =
     (case collect_laps (pick_drivers s driver_no) [] of Inl e \<Rightarrow> [] | Inr arrays \<Rightarrow> arrays)"


text \<open>One step of the loop over the drivers for a driver with rows, and the reading of
  the loop's state: \<open>bounds_of acc S\<close> says that \<open>S\<close> is the set of timestamps collected so
  far, with the bounds still \<open>None\<close> and no data while \<open>S\<close> is empty.\<close>

definition add_driver :: "string \<Rightarrow> sample list \<Rightarrow> collected \<Rightarrow> collected" where
  "add_driver code arrays acc =
     \<lparr>all_data = AList.update code arrays (all_data acc),
      global_t_min = Some (case global_t_min acc of None \<Rightarrow> amin (map a_t arrays)
                           | Some g \<Rightarrow> min g (amin (map a_t arrays))),
      global_t_max = Some (case global_t_max acc of None \<Rightarrow> amax (map a_t arrays)
                           | Some g \<Rightarrow> max g (amax (map a_t arrays)))\<rparr>"


subsection \<open>Concrete inputs\<close>

text \<open>Small sessions and frames on which the properties below are evaluated.\<close>

definition bare_frame :: "real \<Rightarrow> frame" where
  "bare_frame t = \<lparr>f_t = t, f_drivers = [], f_weather = None\<rparr>"

definition three_frames :: processor where
  "three_frames = init\<lparr>p_frames := [bare_frame 0, bare_frame (1 / 25), bare_frame (2 / 25)]\<rparr>"

text \<open>A stream of three samples at 0 s, 0.1 s and 0.2 s with speeds 10, 20 and 30.\<close>

definition stream3 :: "sample list" where
  "stream3 =
     map (\<lambda>(t, v). \<lparr>a_t = t, a_x = 0, a_y = 0, a_dist = 0, a_speed = v, a_gear = 1,
                      a_throttle = 0, a_brake = 0, a_drs = 0, a_lap = 1, a_tyre = ''SOFT''\<rparr>)
       [(0, 10), (1 / 10, 20), (1 / 5, 30)]"

text \<open>Sessions built from a laps table: two drivers, number 1 (VER) and number 44
  (HAM), both in the colour mapping; no weather table and no fastest-lap telemetry.\<close>

definition mk_lap :: "string \<Rightarrow> string \<Rightarrow> int \<Rightarrow> string \<Rightarrow> error + tel_row list \<Rightarrow> lap" where
  "mk_lap driver_no driver n compound tel =
     \<lparr>lap_DriverNumber = driver_no, lap_Driver = driver, lap_LapNumber = n,
      lap_Compound = compound, lap_telemetry = tel\<rparr>"

definition session_of_laps :: "lap list \<Rightarrow> session" where
  "session_of_laps laps =
     \<lparr>s_drivers = [''1'', ''44''],
      s_abbreviation = (\<lambda>n. if n = ''1'' then ''VER'' else ''HAM''),
      s_laps = laps,
      s_weather_data = None,
      s_color_mapping = Inr [(''VER'', ''#3671c6''), (''HAM'', ''#27f4d2'')],
      s_fastest_lap_telemetry = Inl ExternalError,
      s_circuit_rotation = Inr None\<rparr>"

definition five_laps :: "lap list" where
  "five_laps =
     map (\<lambda>(n, c). mk_lap ''1'' ''VER'' n c (Inr []))
       [(2, ''SOFT''), (1, ''SOFT''), (3, ''MEDIUM''), (4, ''MEDIUM''), (5, ''MEDIUM'')]"

definition blank_then_soft :: "lap list" where
  "blank_then_soft = [mk_lap ''1'' ''VER'' 1 [] (Inr []), mk_lap ''1'' ''VER'' 2 ''SOFT'' (Inr [])]"

text \<open>Laps tables: VER with one lap of two samples at 10 s and 10.1 s, alone, or with a
  lap of HAM whose telemetry table is empty, or with a lap of HAM whose telemetry
  extraction raises; and one lap for each driver, both with an empty table.\<close>

definition mk_row :: "real \<Rightarrow> real \<Rightarrow> tel_row" where
  "mk_row t v = \<lparr>tel_SessionTime = t, tel_X = 0, tel_Y = 0, tel_Distance = 0, tel_Speed = v,
                 tel_nGear = 1, tel_Throttle = 0, tel_Brake = 0, tel_DRS = 0\<rparr>"

definition ver_laps :: "lap list" where
  "ver_laps = [mk_lap ''1'' ''VER'' 1 ''SOFT'' (Inr [mk_row 10 100, mk_row (101 / 10) 110])]"

definition ver_and_empty_ham :: "lap list" where
  "ver_and_empty_ham = ver_laps @ [mk_lap ''44'' ''HAM'' 1 ''SOFT'' (Inr [])]"

definition ver_and_failing_ham :: "lap list" where
  "ver_and_failing_ham = ver_laps @ [mk_lap ''44'' ''HAM'' 1 ''SOFT'' (Inl ExternalError)]"

definition ver_rows :: "sample list" where
  "ver_rows = lap_samples (mk_lap ''1'' ''VER'' 1 ''SOFT'' (Inr [])) [mk_row 10 100, mk_row (101 / 10) 110]"

definition no_telemetry_laps :: "lap list" where
  "no_telemetry_laps =
     [mk_lap ''1'' ''VER'' 1 ''SOFT'' (Inr []), mk_lap ''44'' ''HAM'' 1 ''SOFT'' (Inr [])]"

text \<open>A processor holding an earlier session's frames, colours and track.\<close>

definition previous_state :: processor where
  "previous_state =
     three_frames\<lparr>p_driver_colors := [(''ALO'', \<lparr>c_hex = ''#229971'', c_rgb = [34, 153, 113]\<rparr>)],
                  p_track_coords := TrackEmpty\<rparr>"

section \<open>Properties\<close>

subsection \<open>Slices of the frame sequence\<close>

lemma py_slice_nonneg:
  assumes "0 \<le> s" "0 \<le> e"
  shows "py_slice xs s e = clamped_slice xs s e"
proof -
  let ?n = "length xs"
  have a: "adjust_index (int ?n) s = min (int ?n) s" "adjust_index (int ?n) e = min (int ?n) e"
    using assms by (auto simp: adjust_index_def)
  have m: "max 0 s = s" using assms by simp
  show ?thesis
  proof (cases "min (int ?n) s < min (int ?n) e")
    case True
    then have sn: "nat s < ?n" "s < e" using assms by auto
    have "take (nat (min (int ?n) e - s)) (drop (nat s) xs)
          = map (\<lambda>i. xs ! i) [nat s..<nat (min (int ?n) e)]"
    proof (rule nth_equalityI)
      show "length (take (nat (min (int ?n) e - s)) (drop (nat s) xs))
            = length (map (\<lambda>i. xs ! i) [nat s..<nat (min (int ?n) e)])"
        using assms sn by auto
    next
      fix i assume "i < length (take (nat (min (int ?n) e - s)) (drop (nat s) xs))"
      then have i: "i < nat (min (int ?n) e - s)" "i < ?n - nat s" by auto
      then have "i < nat (min (int ?n) e) - nat s" "nat s + i < nat (min (int ?n) e)"
        using assms by linarith+
      then show "take (nat (min (int ?n) e - s)) (drop (nat s) xs) ! i
                 = map (\<lambda>i. xs ! i) [nat s..<nat (min (int ?n) e)] ! i"
        using i sn by simp
    qed
    moreover have "adjust_index (int ?n) s = s"
      using sn assms by (auto simp: adjust_index_def)
    moreover have "s < min (int ?n) e" using True sn by auto
    ultimately show ?thesis
      by (simp add: py_slice_def clamped_slice_def a(2) m Let_def)
  next
    case False
    then have "nat (min (int ?n) e) \<le> nat s" using assms by auto
    then have "clamped_slice xs s e = []"
      by (simp add: clamped_slice_def m)
    moreover have "\<not> adjust_index (int ?n) s < adjust_index (int ?n) e"
      unfolding a by (rule False)
    then have "py_slice xs s e = []"
      by (simp only: py_slice_def Let_def if_False)
    ultimately show ?thesis by simp
  qed
qed

lemma clamped_slice_beyond:
  "int (length xs) \<le> start \<Longrightarrow> clamped_slice xs start end = []"
  by (auto simp: clamped_slice_def)

lemma py_slice_neg_start:
  assumes "0 < k" "k \<le> length xs"
  shows "py_slice xs (- int k) (int (length xs)) = drop (length xs - k) xs"
proof -
  have "adjust_index (int (length xs)) (- int k) = int (length xs) - int k"
    using assms by (auto simp: adjust_index_def)
  moreover have "adjust_index (int (length xs)) (int (length xs)) = int (length xs)"
    by (simp add: adjust_index_def)
  moreover have "nat (int (length xs) - int k) = length xs - k" by simp
  ultimately show ?thesis using assms
    by (simp add: py_slice_def Let_def)
qed

lemma py_slice_neg_stop:
  assumes "0 < k" "k \<le> length xs"
  shows "py_slice xs 0 (- int k) = take (length xs - k) xs"
proof -
  have "adjust_index (int (length xs)) (- int k) = int (length xs) - int k"
    using assms by (auto simp: adjust_index_def)
  moreover have "adjust_index (int (length xs)) 0 = 0"
    by (simp add: adjust_index_def)
  moreover have "nat (int (length xs) - int k) = length xs - k" by simp
  ultimately show ?thesis using assms
    by (auto simp add: py_slice_def Let_def)
qed

lemma py_slice_last:
  assumes "xs \<noteq> []"
  shows "py_slice xs (- 1) (int (length xs)) = [last xs]"
proof -
  have "py_slice xs (- int 1) (int (length xs)) = drop (length xs - 1) xs"
    using assms by (intro py_slice_neg_start) (auto simp: Suc_le_eq)
  moreover have "drop (length xs - 1) xs = [last xs]"
    using assms by (metis append_butlast_last_id append_eq_conv_conj length_butlast)
  ultimately show ?thesis by simp
qed

lemma adjust_index_from_end:
  "adjust_index (int (length xs)) i = adjust_index (int (length xs)) (max 0 (from_end xs i))"
  by (auto simp: adjust_index_def from_end_def)

lemma clamped_slice_max:
  "clamped_slice xs (max 0 a) (max 0 b) = clamped_slice xs a b"
proof -
  have "nat (min (int (length xs)) (max 0 b)) = nat (min (int (length xs)) b)" by auto
  then show ?thesis by (simp add: clamped_slice_def)
qed

lemma py_slice_from_end:
  "py_slice xs start end = clamped_slice xs (from_end xs start) (from_end xs end)"
proof -
  have "py_slice xs start end
        = py_slice xs (max 0 (from_end xs start)) (max 0 (from_end xs end))"
    by (simp only: py_slice_def Let_def
          adjust_index_from_end[of xs start, symmetric] adjust_index_from_end[of xs "end", symmetric])
  also have "\<dots> = clamped_slice xs (max 0 (from_end xs start)) (max 0 (from_end xs end))"
    by (rule py_slice_nonneg) simp_all
  also have "\<dots> = clamped_slice xs (from_end xs start) (from_end xs end)"
    by (rule clamped_slice_max)
  finally show ?thesis .
qed

text \<open>
  C9, as amended. For a start and an end that are not negative, \<open>get_frames\<close> returns the
  half-open slice from start to end with both bounds clamped to the length of the frame
  sequence, which is empty when the start is at or beyond the length; it never raises
  (it is a total function to lists). \<open>get_frame\<close> returns the frame at an index inside
  the sequence and the not-found value for every other index.
\<close>

theorem get_frames_nonneg_clamped:
  assumes "0 \<le> start" and "0 \<le> end"
  shows "get_frames self start end = clamped_slice (p_frames self) start end
       \<and> (int (length (p_frames self)) \<le> start \<longrightarrow> get_frames self start end = [])
       \<and> (0 \<le> index \<and> index < int (length (p_frames self))
            \<longrightarrow> get_frame self index = Some (p_frames self ! nat index))
       \<and> (\<not> (0 \<le> index \<and> index < int (length (p_frames self)))
            \<longrightarrow> get_frame self index = None)"
proof -
  have eq: "get_frames self start end = clamped_slice (p_frames self) start end"
    unfolding get_frames_def using assms by (rule py_slice_nonneg)
  moreover have "int (length (p_frames self)) \<le> start \<longrightarrow> get_frames self start end = []"
    using eq clamped_slice_beyond by metis
  ultimately show ?thesis by (simp add: get_frame_def)
qed

theorem get_frames_nonneg_clamped_witness:
  "get_frames three_frames 1 5 = [bare_frame (1 / 25), bare_frame (2 / 25)]
   \<and> get_frames three_frames 3 5 = []
   \<and> get_frame three_frames 2 = Some (bare_frame (2 / 25))
   \<and> get_frame three_frames 3 = None"
  using get_frames_nonneg_clamped [of 1 5 three_frames 2]
        get_frames_nonneg_clamped [of 3 5 three_frames 3]
  by (simp add: three_frames_def clamped_slice_def upt_rec)

text \<open>
  The claim C9 as it is stated, for all integers, fails at a negative start: on three
  frames \<open>get_frames (-1) 3\<close> is the last frame alone, while the slice from \<open>-1\<close> to \<open>3\<close>
  with the start clamped is the whole sequence.
\<close>

theorem get_frames_clamped_counterexample:
  "get_frames three_frames (- 1) 3 = [bare_frame (2 / 25)]
   \<and> clamped_slice (p_frames three_frames) (- 1) 3
       = [bare_frame 0, bare_frame (1 / 25), bare_frame (2 / 25)]
   \<and> get_frames three_frames (- 1) 3 \<noteq> clamped_slice (p_frames three_frames) (- 1) 3"
  by (simp add: get_frames_def py_slice_def adjust_index_def three_frames_def
        clamped_slice_def upt_rec)

text \<open>
  C10. \<open>get_frames\<close> follows the slice semantics of Python for all integer arguments: a
  negative start or end counts backward from the end of the frame sequence, that is, it
  stands for the length plus the argument, and the result is the half-open slice between
  the two positions so obtained (each brought into \<open>0 .. length\<close> only after that). In
  particular, on a non-empty sequence with \<open>0 < k \<le> length\<close>, a start of \<open>-k\<close> up to the
  length returns the last \<open>k\<close> frames, a stop of \<open>-k\<close> from 0 returns all but the last \<open>k\<close>
  frames, and \<open>get_frames (-1) length\<close> is the last frame. A negative argument is neither
  clamped to 0 nor rejected.
\<close>

theorem get_frames_negative_index:
  "get_frames self start end
     = clamped_slice (p_frames self) (from_end (p_frames self) start) (from_end (p_frames self) end)
   \<and> (0 < k \<and> k \<le> length (p_frames self) \<longrightarrow>
        get_frames self (- int k) (int (length (p_frames self)))
          = drop (length (p_frames self) - k) (p_frames self)
        \<and> get_frames self 0 (- int k) = take (length (p_frames self) - k) (p_frames self)
        \<and> get_frames self (- 1) (int (length (p_frames self))) = [last (p_frames self)])"
proof (intro conjI impI)
  show "get_frames self start end
     = clamped_slice (p_frames self) (from_end (p_frames self) start) (from_end (p_frames self) end)"
    unfolding get_frames_def by (rule py_slice_from_end)
next
  assume k: "0 < k \<and> k \<le> length (p_frames self)"
  then have k1: "0 < k" and k2: "k \<le> length (p_frames self)" by simp_all
  show "get_frames self (- int k) (int (length (p_frames self)))
          = drop (length (p_frames self) - k) (p_frames self)"
    unfolding get_frames_def by (rule py_slice_neg_start[OF k1 k2])
  show "get_frames self 0 (- int k) = take (length (p_frames self) - k) (p_frames self)"
    unfolding get_frames_def by (rule py_slice_neg_stop[OF k1 k2])
  have "p_frames self \<noteq> []" using k by auto
  then show "get_frames self (- 1) (int (length (p_frames self))) = [last (p_frames self)]"
    unfolding get_frames_def by (rule py_slice_last)
qed

theorem get_frames_negative_index_witness:
  "get_frames three_frames (- 2) 2 = [bare_frame (1 / 25)]
   \<and> get_frames three_frames (- 2) (- 1) = [bare_frame (1 / 25)]
   \<and> get_frames three_frames (- 5) (- 1) = [bare_frame 0, bare_frame (1 / 25)]
   \<and> get_frames three_frames 1 (- 5) = []
   \<and> get_frames three_frames (- 2) 3 = [bare_frame (1 / 25), bare_frame (2 / 25)]
   \<and> get_frames three_frames 0 (- 2) = [bare_frame 0]
   \<and> get_frames three_frames (- 1) 3 = [bare_frame (2 / 25)]"
  using get_frames_negative_index [of three_frames "- 2" 2 2]
        get_frames_negative_index [of three_frames "- 2" "- 1" 2]
        get_frames_negative_index [of three_frames "- 5" "- 1" 2]
        get_frames_negative_index [of three_frames 1 "- 5" 2]
  by (simp add: three_frames_def clamped_slice_def from_end_def upt_rec)

subsection \<open>The sample lookup\<close>

declare binsearch_left.simps [simp del]

text \<open>The invariant of the binary search on a sorted array: everything left of \<open>lo\<close> is
  below the key, everything from \<open>hi\<close> on is at or above it.\<close>

lemma binsearch_left_bounds:
  assumes "sorted a" "lo \<le> hi" "hi \<le> length a"
    and "\<forall>j<lo. a ! j < key"
    and "\<forall>j. hi \<le> j \<and> j < length a \<longrightarrow> key \<le> a ! j"
  shows "binsearch_left a key lo hi \<le> length a
       \<and> (\<forall>j<binsearch_left a key lo hi. a ! j < key)
       \<and> (\<forall>j. binsearch_left a key lo hi \<le> j \<and> j < length a \<longrightarrow> key \<le> a ! j)"
  using assms
proof (induction a key lo hi rule: binsearch_left.induct)
  case (1 a key lo hi)
  show ?case
  proof (cases "lo < hi")
    case False
    then have "binsearch_left a key lo hi = lo"
      by (simp add: binsearch_left.simps)
    moreover have "lo = hi" using False "1.prems"(2) by simp
    ultimately show ?thesis using "1.prems" by simp
  next
    case True
    define mid where "mid = lo + (hi - lo) div 2"
    have mid: "lo \<le> mid" "mid < hi" "mid < length a"
      using True "1.prems"(3) by (auto simp: mid_def)
    show ?thesis
    proof (cases "a ! mid < key")
      case less: True
      have eq: "binsearch_left a key lo hi = binsearch_left a key (mid + 1) hi"
        using True less by (subst binsearch_left.simps) (simp add: mid_def Let_def)
      have below: "\<forall>j<mid + 1. a ! j < key"
      proof (intro allI impI)
        fix j assume "j < mid + 1"
        then have "a ! j \<le> a ! mid"
          using "1.prems"(1) mid(3) by (simp add: sorted_iff_nth_mono)
        then show "a ! j < key" using less by simp
      qed
      show ?thesis
        unfolding eq
        using "1.IH"(1)[OF True mid_def less "1.prems"(1) _ "1.prems"(3) below "1.prems"(5)] mid
        by simp
    next
      case geq: False
      have eq: "binsearch_left a key lo hi = binsearch_left a key lo mid"
        using True geq by (subst binsearch_left.simps) (simp add: mid_def Let_def)
      have above: "\<forall>j. mid \<le> j \<and> j < length a \<longrightarrow> key \<le> a ! j"
      proof (intro allI impI)
        fix j assume "mid \<le> j \<and> j < length a"
        then have "a ! mid \<le> a ! j"
          using "1.prems"(1) by (simp add: sorted_iff_nth_mono)
        then show "key \<le> a ! j" using geq by simp
      qed
      show ?thesis
        unfolding eq
        using "1.IH"(2)[OF True mid_def geq "1.prems"(1) mid(1) _ "1.prems"(4) above] mid
        by simp
    qed
  qed
qed

lemma searchsorted_spec:
  assumes "sorted a"
  shows "searchsorted a v \<le> length a"
    and "\<And>j. j < searchsorted a v \<Longrightarrow> a ! j < v"
    and "\<And>j. searchsorted a v \<le> j \<Longrightarrow> j < length a \<Longrightarrow> v \<le> a ! j"
  using binsearch_left_bounds[of a 0 "length a" v] assms
  by (auto simp: searchsorted_def)

text \<open>
  C1, as amended. \<open>driver_snapshot\<close> and \<open>weather_at\<close> both resolve a timeline step \<open>t\<close>
  through \<open>sample_index\<close>. On a non-empty array of timestamps in non-decreasing order the
  resolved index is the least index whose timestamp is at or after \<open>t\<close> (every earlier
  timestamp is strictly before \<open>t\<close>), it is the last index when \<open>t\<close> is after the last
  timestamp, and the first index when \<open>t\<close> is at or before the first timestamp.
\<close>

theorem sample_index_least_at_or_after:
  assumes "sorted ts" and "ts \<noteq> []"
  shows "sample_index ts t < length ts
       \<and> (\<forall>j<sample_index ts t. ts ! j < t)
       \<and> (t \<le> last ts \<longrightarrow> t \<le> ts ! sample_index ts t)
       \<and> (last ts < t \<longrightarrow> sample_index ts t = length ts - 1)
       \<and> (t \<le> hd ts \<longrightarrow> sample_index ts t = 0)"
proof -
  let ?r = "searchsorted ts t"
  note ss = searchsorted_spec[OF assms(1), where v = t]
  have len: "0 < length ts" using assms(2) by simp
  have lastn: "last ts = ts ! (length ts - 1)" using assms(2) by (simp add: last_conv_nth)
  have hd0: "hd ts = ts ! 0" using assms(2) by (simp add: hd_conv_nth)
  have len1: "length ts - 1 < length ts" using len by arith
  have c1: "sample_index ts t < length ts"
    unfolding sample_index_def using len1 by (rule min.strict_coboundedI2)
  have c2: "\<forall>j<sample_index ts t. ts ! j < t"
    using ss(2) by (simp add: sample_index_def)
  have c3: "t \<le> last ts \<longrightarrow> t \<le> ts ! sample_index ts t"
  proof
    assume le: "t \<le> last ts"
    have "?r \<le> length ts - 1"
    proof (rule ccontr)
      assume "\<not> ?r \<le> length ts - 1"
      then have "length ts - 1 < ?r" by simp
      from ss(2)[OF this] le lastn show False by simp
    qed
    then have "sample_index ts t = ?r" by (simp add: sample_index_def)
    moreover have "?r < length ts" using \<open>?r \<le> length ts - 1\<close> len1 by arith
    ultimately show "t \<le> ts ! sample_index ts t" using ss(3)[of ?r] by simp
  qed
  have c4: "last ts < t \<longrightarrow> sample_index ts t = length ts - 1"
  proof
    assume gt: "last ts < t"
    have "\<not> ?r \<le> length ts - 1"
    proof
      assume "?r \<le> length ts - 1"
      from ss(3)[OF this len1] gt lastn show False by simp
    qed
    then show "sample_index ts t = length ts - 1" by (simp add: sample_index_def)
  qed
  have c5: "t \<le> hd ts \<longrightarrow> sample_index ts t = 0"
  proof
    assume le: "t \<le> hd ts"
    have "?r = 0"
    proof (rule ccontr)
      assume "?r \<noteq> 0"
      then have "0 < ?r" by simp
      from ss(2)[OF this] le hd0 show False by simp
    qed
    then show "sample_index ts t = 0" by (simp add: sample_index_def)
  qed
  from c1 c2 c3 c4 c5 show ?thesis by blast
qed

theorem sample_index_least_at_or_after_witness:
  "sorted (map a_t stream3) \<and> map a_t stream3 \<noteq> []
   \<and> sample_index (map a_t stream3) (1 / 25) < length (map a_t stream3)
   \<and> 1 / 25 \<le> map a_t stream3 ! sample_index (map a_t stream3) (1 / 25)
   \<and> sample_index (map a_t stream3) 1 = 2
   \<and> sample_index (map a_t stream3) 0 = 0"
  using sample_index_least_at_or_after [of "map a_t stream3" "1 / 25"]
        sample_index_least_at_or_after [of "map a_t stream3" 1]
        sample_index_least_at_or_after [of "map a_t stream3" 0]
  by (simp add: stream3_def)

text \<open>
  The claim C1 as it is stated (the latest sample at or before the step) fails: with
  samples at 0 s, 0.1 s and 0.2 s, the second timeline step 0.04 s lies between the
  first two samples, so the claimed index is 0; the lookup resolves index 1, whose
  timestamp 0.1 s is after the step, and the snapshot shows that sample's speed.
\<close>

theorem sample_index_nearest_past_counterexample:
  "arange 0 (1 / 5) (1 / 25) ! 1 = 1 / 25
   \<and> map a_t stream3 ! 0 \<le> 1 / 25 \<and> 1 / 25 < map a_t stream3 ! 1
   \<and> sample_index (map a_t stream3) (arange 0 (1 / 5) (1 / 25) ! 1) = 1
   \<and> \<not> (map a_t stream3 ! sample_index (map a_t stream3) (arange 0 (1 / 5) (1 / 25) ! 1)
          \<le> arange 0 (1 / 5) (1 / 25) ! 1)
   \<and> sn_speed (driver_snapshot TrackUnset stream3 (arange 0 (1 / 5) (1 / 25) ! 1)) = 20"
proof -
  have t: "arange 0 (1 / 5) (1 / 25) ! 1 = 1 / 25"
    by (simp add: arange_def)
  have i: "sample_index (map a_t stream3) (1 / 25) = 1"
    by (simp add: stream3_def sample_index_def searchsorted_def binsearch_left.simps)
  have v: "sn_speed (driver_snapshot TrackUnset stream3 (1 / 25)) = 20"
    by (simp add: driver_snapshot_def i Let_def)
       (simp add: stream3_def py_round_def round_half_even_def)
  have r: "map a_t stream3 ! 0 \<le> 1 / 25" "1 / 25 < map a_t stream3 ! 1"
    by (simp_all add: stream3_def)
  show ?thesis
    unfolding t i using r v by simp
qed

subsection \<open>Track geometry\<close>






lemma extract_track_coords_normalize:
  assumes "s_fastest_lap_telemetry s = Inr tel" and "s_circuit_rotation s = Inr r"
  shows "\<exists>x y. length x = length tel \<and> length y = length tel
           \<and> extract_track_coords s = normalize_track x y (map tel_Distance tel)"
proof (cases "(case r of None \<Rightarrow> 0 | Some d \<Rightarrow> d) \<noteq> 0")
  case True
  let ?rad = "deg2rad (case r of None \<Rightarrow> 0 | Some d \<Rightarrow> d)"
  let ?x = "map (\<lambda>(u, v). u * cos ?rad - v * sin ?rad) (zip (map tel_X tel) (map tel_Y tel))"
  let ?y = "map (\<lambda>(u, v). u * sin ?rad + v * cos ?rad) (zip (map tel_X tel) (map tel_Y tel))"
  have "extract_track_coords s = normalize_track ?x ?y (map tel_Distance tel)"
    using assms True by (simp add: extract_track_coords_def Let_def)
  moreover have "length ?x = length tel" "length ?y = length tel" by simp_all
  ultimately show ?thesis by blast
next
  case False
  have "extract_track_coords s
          = normalize_track (map tel_X tel) (map tel_Y tel) (map tel_Distance tel)"
    using assms False by (simp add: extract_track_coords_def Let_def)
  moreover have "length (map tel_X tel) = length tel" "length (map tel_Y tel) = length tel"
    by simp_all
  ultimately show ?thesis by blast
qed



subsection \<open>Tyre strategy\<close>

lemma sorted_lap_numbers:
  assumes "lap_LapNumber ` set laps = {1..int (length laps)}"
  shows "map lap_LapNumber (sort_key lap_LapNumber laps) = [1..int (length laps)]"
proof -
  let ?ns = "map lap_LapNumber (sort_key lap_LapNumber laps)"
  have s: "sorted ?ns" by (rule sorted_sort_key)
  have st: "set ?ns = {1..int (length laps)}" using assms by simp
  have "card (set ?ns) = card {1..int (length laps)}" by (simp only: st)
  then have "card (set ?ns) = length ?ns" by simp
  then have d: "distinct ?ns" by (rule card_distinct)
  show ?thesis
    by (rule sorted_distinct_set_unique[OF s d]) (simp_all only: st sorted_upto distinct_upto set_upto)
qed

lemma covers_append:
  "covers a b xs \<Longrightarrow> covers (b + 1) c ys \<Longrightarrow> covers a c (xs @ ys)"
  by (induction xs arbitrary: a) auto

lemma covers_snoc:
  "covers a (b - 1) xs \<Longrightarrow> b \<le> c \<Longrightarrow>
   covers a c (xs @ [\<lparr>st_compound = k, st_start_lap = b, st_end_lap = c\<rparr>])"
  by (rule covers_append[where b = "b - 1"]) simp_all

lemma covers_le: "covers a b ss \<Longrightarrow> a \<le> b + 1"
proof (induction ss arbitrary: a)
  case Nil then show ?case by simp
next
  case (Cons s ss)
  have "covers (st_end_lap s + 1) b ss" "a \<le> st_end_lap s" using Cons.prems by simp_all
  then have "st_end_lap s + 1 \<le> b + 1" "a \<le> st_end_lap s" using Cons.IH by blast+
  then show ?case by simp
qed

lemma covers_bounds:
  "covers a b ss \<Longrightarrow> s \<in> set ss \<Longrightarrow>
   a \<le> st_start_lap s \<and> st_start_lap s \<le> st_end_lap s \<and> st_end_lap s \<le> b"
proof (induction ss arbitrary: a)
  case Nil then show ?case by simp
next
  case (Cons t ss)
  have c: "covers (st_end_lap t + 1) b ss" and t: "st_start_lap t = a" "a \<le> st_end_lap t"
    using Cons.prems(1) by simp_all
  show ?case
  proof (cases "s = t")
    case True
    then show ?thesis using t covers_le[OF c] by simp
  next
    case False
    then have "s \<in> set ss" using Cons.prems(2) by simp
    from Cons.IH[OF c this] show ?thesis using t by simp
  qed
qed

lemma covers_hd_last:
  "covers a b ss \<Longrightarrow> ss \<noteq> [] \<Longrightarrow> st_start_lap (hd ss) = a \<and> st_end_lap (last ss) = b"
  by (induction ss arbitrary: a) auto

lemma covers_adjacent:
  "covers a b ss \<Longrightarrow> Suc i < length ss \<Longrightarrow>
   st_start_lap (ss ! Suc i) = st_end_lap (ss ! i) + 1"
proof (induction ss arbitrary: a i)
  case Nil then show ?case by simp
next
  case (Cons s ss)
  show ?case
  proof (cases i)
    case 0
    then obtain t ts where "ss = t # ts" using Cons.prems(2) by (cases ss) auto
    then show ?thesis using Cons.prems(1) 0 by simp
  next
    case (Suc j)
    then show ?thesis using Cons.IH[of "st_end_lap s + 1" j] Cons.prems by simp
  qed
qed

lemma covers_disjoint:
  "covers a b ss \<Longrightarrow> i < j \<Longrightarrow> j < length ss \<Longrightarrow>
   st_end_lap (ss ! i) < st_start_lap (ss ! j)"
proof (induction ss arbitrary: a i j)
  case Nil then show ?case by simp
next
  case (Cons s ss)
  obtain j' where j: "j = Suc j'" using Cons.prems(2) by (cases j) auto
  have c: "covers (st_end_lap s + 1) b ss" using Cons.prems(1) by simp
  show ?case
  proof (cases i)
    case 0
    have "ss ! j' \<in> set ss" using Cons.prems(3) j by simp
    from covers_bounds[OF c this] show ?thesis using 0 j by simp
  next
    case (Suc i')
    then show ?thesis using Cons.IH[OF c, of i' j'] Cons.prems j by simp
  qed
qed

lemma covers_every_lap:
  "covers a b ss \<Longrightarrow> a \<le> k \<Longrightarrow> k \<le> b \<Longrightarrow>
   \<exists>s\<in>set ss. st_start_lap s \<le> k \<and> k \<le> st_end_lap s"
proof (induction ss arbitrary: a)
  case Nil then show ?case by simp
next
  case (Cons s ss)
  show ?case
  proof (cases "k \<le> st_end_lap s")
    case True then show ?thesis using Cons.prems by auto
  next
    case False
    then have "st_end_lap s + 1 \<le> k" by simp
    from Cons.IH[OF _ this Cons.prems(3)] Cons.prems(1) show ?thesis by auto
  qed
qed

lemma covers_sorted: "covers a b ss \<Longrightarrow> sorted (map st_start_lap ss)"
proof (induction ss arbitrary: a)
  case Nil then show ?case by simp
next
  case (Cons s ss)
  have c: "covers (st_end_lap s + 1) b ss" using Cons.prems by simp
  have "\<forall>t\<in>set ss. st_start_lap s \<le> st_start_lap t"
    using covers_bounds[OF c] Cons.prems by fastforce
  then show ?case using Cons.IH[OF c] by simp
qed

lemma stint_loop_inv:
  assumes "map lap_LapNumber ls = [j + 1..n]"
    and "\<forall>l\<in>set ls. lap_Compound l \<noteq> []"
    and "c \<noteq> []" and "covers 1 (start - 1) stints" and "start \<le> j"
  shows "\<exists>stints' c' start'.
           stint_loop ls stints (Some c) start = (stints', Some c', start')
         \<and> c' \<noteq> [] \<and> covers 1 (start' - 1) stints' \<and> start' \<le> max j n
         \<and> stint_starts stints' @ [(start', c')] = stint_starts stints @ [(start, c)] @ compound_changes c ls"
  using assms
proof (induction ls arbitrary: j stints c start)
  case Nil
  then show ?case by simp
next
  case (Cons l ls)
  have jn: "j + 1 \<le> n" using Cons.prems(1) by (cases "j + 1 \<le> n") (simp_all add: upto.simps)
  then have up: "[j + 1..n] = (j + 1) # [j + 1 + 1..n]" by (simp add: upto.simps)
  have num: "lap_LapNumber l = j + 1" and rest: "map lap_LapNumber ls = [j + 1 + 1..n]"
    using Cons.prems(1) up by simp_all
  have ne: "lap_Compound l \<noteq> []" and ne': "\<forall>l\<in>set ls. lap_Compound l \<noteq> []"
    using Cons.prems(2) by simp_all
  show ?case
  proof (cases "lap_Compound l = c")
    case True
    have "start \<le> j + 1" using Cons.prems(5) by simp
    from Cons.IH[OF rest ne' Cons.prems(3) Cons.prems(4) this]
    show ?thesis using True jn by (auto simp: Let_def max_def)
  next
    case False
    let ?st = "stints @ [\<lparr>st_compound = c, st_start_lap = start, st_end_lap = j\<rparr>]"
    have cov: "covers 1 (j + 1 - 1) ?st"
      using covers_snoc[OF Cons.prems(4) Cons.prems(5)] by simp
    have app: "append_stint (Some c) start (lap_LapNumber l - 1) stints = ?st"
      using Cons.prems(3) num by (simp add: append_stint_def)
    from Cons.IH[OF rest ne' ne cov order_refl]
    show ?thesis using False jn app num by (auto simp: Let_def max_def stint_starts_def)
  qed
qed

lemma driver_stints_covers:
  assumes "laps \<noteq> []"
    and "lap_LapNumber ` set laps = {1..int (length laps)}"
    and "\<forall>l\<in>set laps. lap_Compound l \<noteq> []"
  shows "covers 1 (int (length laps)) (driver_stints laps)"
    and "stint_starts (driver_stints laps)
           = (1, lap_Compound (hd (sort_key lap_LapNumber laps)))
             # compound_changes (lap_Compound (hd (sort_key lap_LapNumber laps)))
                 (tl (sort_key lap_LapNumber laps))"
    and "Max (set (map lap_LapNumber (sort_key lap_LapNumber laps))) = int (length laps)"
proof -
  let ?sl = "sort_key lap_LapNumber laps"
  let ?n = "int (length laps)"
  have n1: "1 \<le> ?n" using assms(1) by (cases laps) auto
  obtain l ls where sl: "?sl = l # ls"
    using assms(1) by (cases ?sl) (auto dest: arg_cong[where f = length])
  have nums: "map lap_LapNumber ?sl = [1..?n]" by (rule sorted_lap_numbers[OF assms(2)])
  have up: "[1..?n] = 1 # [1 + 1..?n]" using n1 by (simp add: upto.simps)
  have num: "lap_LapNumber l = 1" and rest: "map lap_LapNumber ls = [1 + 1..?n]"
    using nums sl up by simp_all
  have "set ?sl = set laps" by simp
  then have ne: "lap_Compound l \<noteq> []" "\<forall>l\<in>set ls. lap_Compound l \<noteq> []"
    using assms(3) sl by auto
  have mx: "Max (set (map lap_LapNumber ?sl)) = ?n"
    using n1 by (simp only: nums) (simp add: Max_eq_iff)
  from stint_loop_inv[OF rest ne(2) ne(1), of 1 "[]"]
  obtain stints' c' start' where r:
    "stint_loop ls [] (Some (lap_Compound l)) 1 = (stints', Some c', start')"
    "c' \<noteq> []" "covers 1 (start' - 1) stints'" "start' \<le> max 1 ?n"
    "stint_starts stints' @ [(start', c')] = (1, lap_Compound l) # compound_changes (lap_Compound l) ls"
    by (auto simp: stint_starts_def)
  have loop: "stint_loop ?sl [] None 1 = (stints', Some c', start')"
    using r(1) num by (simp add: sl Let_def append_stint_def)
  have ds: "driver_stints laps
              = stints' @ [\<lparr>st_compound = c', st_start_lap = start', st_end_lap = ?n\<rparr>]"
    using loop r(2) mx by (simp add: driver_stints_def Let_def append_stint_def)
  have "start' \<le> ?n" using r(4) n1 by simp
  from covers_snoc[OF r(3) this]
  show "covers 1 ?n (driver_stints laps)" by (simp add: ds)
  show "stint_starts (driver_stints laps)
           = (1, lap_Compound (hd ?sl)) # compound_changes (lap_Compound (hd ?sl)) (tl ?sl)"
    using r(5) by (simp add: ds sl stint_starts_def)
  show "Max (set (map lap_LapNumber ?sl)) = ?n" by (rule mx)
qed


lemma set_unique: "set (unique xs) = set xs"
  by (simp add: unique_def)

text \<open>
  C8, as amended. For every driver of the tyre strategy whose laps are numbered
  consecutively from 1 and whose laps all have a non-empty compound string: the stints
  are not empty, start at lap 1, are contiguous (each starts one lap after the one before
  ends), non-empty and pairwise non-overlapping, ordered by start lap, and cover every
  lap number from 1 to the driver's maximum lap; the final stint ends at the maximum lap
  number; and the stints start exactly at lap 1 and at every lap whose compound differs
  from the compound of the lap immediately before, each stint carrying the compound of
  its first lap.
\<close>

theorem tyre_stints_cover:
  assumes "p_session self = LoadedSession s"
    and "get_tyre_strategy self = Inr strategies"
    and "sg \<in> set strategies"
    and "laps = filter (\<lambda>l. lap_Driver l = sg_driver sg) (s_laps s)"
    and "lap_LapNumber ` set laps = {1..int (length laps)}"
    and "\<forall>l\<in>set laps. lap_Compound l \<noteq> []"
  shows "sg_stints sg \<noteq> []
       \<and> st_start_lap (hd (sg_stints sg)) = 1
       \<and> st_end_lap (last (sg_stints sg)) = Max (lap_LapNumber ` set laps)
       \<and> (\<forall>i. Suc i < length (sg_stints sg) \<longrightarrow>
              st_start_lap (sg_stints sg ! Suc i) = st_end_lap (sg_stints sg ! i) + 1)
       \<and> (\<forall>st\<in>set (sg_stints sg). st_start_lap st \<le> st_end_lap st)
       \<and> (\<forall>i j. i < j \<and> j < length (sg_stints sg) \<longrightarrow>
              st_end_lap (sg_stints sg ! i) < st_start_lap (sg_stints sg ! j))
       \<and> sorted (map st_start_lap (sg_stints sg))
       \<and> (\<forall>k\<in>{1..Max (lap_LapNumber ` set laps)}.
              \<exists>st\<in>set (sg_stints sg). st_start_lap st \<le> k \<and> k \<le> st_end_lap st)
       \<and> stint_starts (sg_stints sg)
           = (1, lap_Compound (hd (sort_key lap_LapNumber laps)))
             # compound_changes (lap_Compound (hd (sort_key lap_LapNumber laps)))
                 (tl (sort_key lap_LapNumber laps))"
proof -
  let ?ss = "sg_stints sg"
  let ?n = "int (length laps)"
  have strategies: "strategies =
      map (\<lambda>driver.
             \<lparr>sg_driver = driver,
              sg_color = (case map_of (p_driver_colors self) driver of
                            None \<Rightarrow> ''#ffffff'' | Some c \<Rightarrow> c_hex c),
              sg_stints = driver_stints (filter (\<lambda>l. lap_Driver l = driver) (s_laps s))\<rparr>)
          (unique (map lap_Driver (s_laps s)))"
    using assms(1,2) by (simp add: get_tyre_strategy_def)
  from assms(3) obtain driver where d: "driver \<in> set (map lap_Driver (s_laps s))"
    and sgeq: "sg = \<lparr>sg_driver = driver,
              sg_color = (case map_of (p_driver_colors self) driver of
                            None \<Rightarrow> ''#ffffff'' | Some c \<Rightarrow> c_hex c),
              sg_stints = driver_stints (filter (\<lambda>l. lap_Driver l = driver) (s_laps s))\<rparr>"
    unfolding strategies set_map set_unique by blast
  have sg: "sg_driver sg = driver"
      "?ss = driver_stints (filter (\<lambda>l. lap_Driver l = driver) (s_laps s))"
    by (simp_all add: sgeq)
  have ss: "?ss = driver_stints laps" using sg assms(4) by simp
  have ne: "laps \<noteq> []" using d sg(1) assms(4) by (auto simp: filter_empty_conv)
  note c = driver_stints_covers[OF ne assms(5,6)]
  have mx: "Max (lap_LapNumber ` set laps) = ?n" using c(3) by simp
  have n1: "1 \<le> ?n" using ne by (cases laps) auto
  have nonempty: "?ss \<noteq> []"
  proof
    assume "?ss = []"
    then have "covers 1 ?n []" using c(1) ss by simp
    then show False using n1 by simp
  qed
  have cov: "covers 1 ?n ?ss" using c(1) ss by simp
  have p1: "st_start_lap (hd ?ss) = 1" "st_end_lap (last ?ss) = Max (lap_LapNumber ` set laps)"
    using covers_hd_last[OF cov nonempty] mx by simp_all
  have p2: "\<forall>i. Suc i < length ?ss \<longrightarrow> st_start_lap (?ss ! Suc i) = st_end_lap (?ss ! i) + 1"
    using covers_adjacent[OF cov] by blast
  have p3: "\<forall>st\<in>set ?ss. st_start_lap st \<le> st_end_lap st"
    using covers_bounds[OF cov] by blast
  have p4: "\<forall>i j. i < j \<and> j < length ?ss \<longrightarrow> st_end_lap (?ss ! i) < st_start_lap (?ss ! j)"
    using covers_disjoint[OF cov] by blast
  have p5: "sorted (map st_start_lap ?ss)" by (rule covers_sorted[OF cov])
  have p6: "\<forall>k\<in>{1..Max (lap_LapNumber ` set laps)}.
              \<exists>st\<in>set ?ss. st_start_lap st \<le> k \<and> k \<le> st_end_lap st"
    using covers_every_lap[OF cov] mx by simp
  have p7: "stint_starts ?ss
           = (1, lap_Compound (hd (sort_key lap_LapNumber laps)))
             # compound_changes (lap_Compound (hd (sort_key lap_LapNumber laps)))
                 (tl (sort_key lap_LapNumber laps))"
    using c(2) ss by simp
  from nonempty p1 p2 p3 p4 p5 p6 p7 show ?thesis by blast
qed

lemma five_laps_strategy:
  "get_tyre_strategy (init\<lparr>p_session := LoadedSession (session_of_laps five_laps)\<rparr>)
     = Inr [\<lparr>sg_driver = ''VER'', sg_color = ''#ffffff'',
             sg_stints = [\<lparr>st_compound = ''SOFT'', st_start_lap = 1, st_end_lap = 2\<rparr>,
                          \<lparr>st_compound = ''MEDIUM'', st_start_lap = 3, st_end_lap = 5\<rparr>]\<rparr>]"
  by (simp add: get_tyre_strategy_def init_def session_of_laps_def five_laps_def mk_lap_def
        unique_def driver_stints_def append_stint_def Let_def)

lemma blank_then_soft_strategy:
  "get_tyre_strategy (init\<lparr>p_session := LoadedSession (session_of_laps blank_then_soft)\<rparr>)
     = Inr [\<lparr>sg_driver = ''VER'', sg_color = ''#ffffff'',
             sg_stints = [\<lparr>st_compound = ''SOFT'', st_start_lap = 2, st_end_lap = 2\<rparr>]\<rparr>]"
  by (simp add: get_tyre_strategy_def init_def session_of_laps_def blank_then_soft_def mk_lap_def
        unique_def driver_stints_def append_stint_def Let_def)

theorem tyre_stints_cover_witness:
  "lap_LapNumber ` set five_laps = {1..int (length five_laps)}
   \<and> (\<exists>sg. get_tyre_strategy (init\<lparr>p_session := LoadedSession (session_of_laps five_laps)\<rparr>)
               = Inr [sg]
          \<and> sg_stints sg = [\<lparr>st_compound = ''SOFT'', st_start_lap = 1, st_end_lap = 2\<rparr>,
                             \<lparr>st_compound = ''MEDIUM'', st_start_lap = 3, st_end_lap = 5\<rparr>]
          \<and> st_end_lap (last (sg_stints sg)) = Max (lap_LapNumber ` set five_laps)
          \<and> stint_starts (sg_stints sg) = [(1, ''SOFT''), (3, ''MEDIUM'')])"
proof -
  let ?P = "init\<lparr>p_session := LoadedSession (session_of_laps five_laps)\<rparr>"
  let ?sg = "\<lparr>sg_driver = ''VER'', sg_color = ''#ffffff'',
             sg_stints = [\<lparr>st_compound = ''SOFT'', st_start_lap = 1, st_end_lap = 2\<rparr>,
                          \<lparr>st_compound = ''MEDIUM'', st_start_lap = 3, st_end_lap = 5\<rparr>]\<rparr>"
  have h1: "p_session ?P = LoadedSession (session_of_laps five_laps)" by simp
  have h2: "get_tyre_strategy ?P = Inr [?sg]" by (rule five_laps_strategy)
  have h3: "?sg \<in> set [?sg]" by simp
  have h4: "five_laps = filter (\<lambda>l. lap_Driver l = sg_driver ?sg) (s_laps (session_of_laps five_laps))"
    by (simp add: session_of_laps_def five_laps_def mk_lap_def)
  have h5: "lap_LapNumber ` set five_laps = {1..int (length five_laps)}"
    by (auto simp: five_laps_def mk_lap_def)
  have h6: "\<forall>l\<in>set five_laps. lap_Compound l \<noteq> []"
    by (simp add: five_laps_def mk_lap_def)
  from tyre_stints_cover [OF h1 h2 h3 h4 h5 h6]
  have "st_end_lap (last (sg_stints ?sg)) = Max (lap_LapNumber ` set five_laps)"
    and "stint_starts (sg_stints ?sg)
           = (1, lap_Compound (hd (sort_key lap_LapNumber five_laps)))
             # compound_changes (lap_Compound (hd (sort_key lap_LapNumber five_laps)))
                 (tl (sort_key lap_LapNumber five_laps))"
    by blast+
  then have "st_end_lap (last (sg_stints ?sg)) = Max (lap_LapNumber ` set five_laps)"
    and "stint_starts (sg_stints ?sg) = [(1, ''SOFT''), (3, ''MEDIUM'')]"
    by (simp_all add: five_laps_def mk_lap_def)
  with h2 h5 show ?thesis by (intro conjI exI[of _ ?sg]) simp_all
qed

text \<open>
  The claim C8 as it is stated, with no condition on the compounds, fails when a compound
  is the empty string: the laps of the driver are numbered 1 and 2, lap 1 has the empty
  compound and lap 2 is on SOFT; the only stint is SOFT from lap 2 to lap 2, so lap 1 is
  covered by no stint.
\<close>

theorem tyre_stints_blank_compound_counterexample:
  "lap_LapNumber ` set blank_then_soft = {1..int (length blank_then_soft)}
   \<and> get_tyre_strategy (init\<lparr>p_session := LoadedSession (session_of_laps blank_then_soft)\<rparr>)
       = Inr [\<lparr>sg_driver = ''VER'', sg_color = ''#ffffff'',
               sg_stints = [\<lparr>st_compound = ''SOFT'', st_start_lap = 2, st_end_lap = 2\<rparr>]\<rparr>]
   \<and> \<not> (\<exists>st\<in>set [\<lparr>st_compound = ''SOFT'', st_start_lap = 2, st_end_lap = 2\<rparr>].
            st_start_lap st \<le> 1 \<and> 1 \<le> st_end_lap st)"
proof -
  have "lap_LapNumber ` set blank_then_soft = {1..int (length blank_then_soft)}"
    by (auto simp: blank_then_soft_def mk_lap_def)
  then show ?thesis using blank_then_soft_strategy by simp
qed

subsection \<open>The loop over the drivers\<close>

lemma collect_laps_empty:
  "\<forall>l\<in>set ls. lap_telemetry l = Inr [] \<Longrightarrow> collect_laps ls arrays = Inr arrays"
  by (induction ls arbitrary: arrays) simp_all

lemma collect_laps_error:
  "l \<in> set ls \<Longrightarrow> lap_telemetry l = Inl e \<Longrightarrow> \<exists>e'. collect_laps ls arrays = Inl e'"
proof (induction ls arbitrary: arrays)
  case Nil then show ?case by simp
next
  case (Cons k ls)
  show ?case
  proof (cases "lap_telemetry k")
    case (Inl e') then show ?thesis by simp
  next
    case (Inr tel)
    then have "k \<noteq> l" using Cons.prems(2) by auto
    then have "l \<in> set ls" using Cons.prems(1) by simp
    from Cons.IH[OF this Cons.prems(2)] show ?thesis using Inr by simp
  qed
qed

lemma collect_drivers_Cons:
  "collect_drivers s (d # ds) acc =
     (case collect_laps (pick_drivers s d) [] of
        Inl e \<Rightarrow> Inl e
      | Inr arrays \<Rightarrow>
          if arrays = [] then collect_drivers s ds acc
          else collect_drivers s ds (add_driver (s_abbreviation s d) arrays acc))"
  by (cases "pick_drivers s d = []") (simp_all add: Let_def add_driver_def split: sum.splits)

declare collect_drivers.simps(2) [simp del]

lemma collect_drivers_error:
  assumes "d \<in> set ds" and "collect_laps (pick_drivers s d) [] = Inl e"
  shows "\<exists>e'. collect_drivers s ds acc = Inl e'"
  using assms(1)
proof (induction ds arbitrary: acc)
  case Nil then show ?case by simp
next
  case (Cons k ds)
  show ?case
  proof (cases "k = d")
    case True then show ?thesis using assms(2) by (simp add: collect_drivers_Cons)
  next
    case False
    then have "d \<in> set ds" using Cons.prems by simp
    from Cons.IH[OF this] show ?thesis
      by (simp add: collect_drivers_Cons split: sum.splits)
  qed
qed

lemma collect_drivers_skip:
  assumes "collect_laps (pick_drivers s d) [] = Inr []"
  shows "collect_drivers s (removeAll d ds) acc = collect_drivers s ds acc"
proof (induction ds arbitrary: acc)
  case Nil then show ?case by simp
next
  case (Cons k ds)
  show ?case
  proof (cases "k = d")
    case True
    then show ?thesis using assms Cons.IH by (simp add: collect_drivers_Cons)
  next
    case False
    then show ?thesis using Cons.IH
      by (simp add: collect_drivers_Cons split: sum.splits)
  qed
qed

lemma collect_drivers_none:
  assumes "\<forall>d\<in>set ds. collect_laps (pick_drivers s d) [] = Inr []"
  shows "collect_drivers s ds acc = Inr acc"
  using assms
  by (induction ds arbitrary: acc) (simp_all add: collect_drivers_Cons)

lemma collect_drivers_session_drivers:
  "collect_drivers (s\<lparr>s_drivers := x\<rparr>) ds acc = collect_drivers s ds acc"
  by (induction ds arbitrary: acc)
     (simp_all add: collect_drivers_Cons pick_drivers_def split: sum.splits)




lemma keys_add_driver:
  "fst ` set (all_data (add_driver code arrays acc)) = insert code (fst ` set (all_data acc))"
  by (simp add: add_driver_def AList.dom_update)

lemma collect_drivers_keys:
  assumes "collect_drivers s ds acc = Inr c"
  shows "fst ` set (all_data c)
           = fst ` set (all_data acc) \<union> s_abbreviation s ` {d \<in> set ds. driver_rows s d \<noteq> []}"
  using assms
proof (induction ds arbitrary: acc)
  case Nil then show ?case by simp
next
  case (Cons d ds)
  from Cons.prems obtain arrays where a: "collect_laps (pick_drivers s d) [] = Inr arrays"
    by (auto simp: collect_drivers_Cons split: sum.splits)
  then have rows: "driver_rows s d = arrays" by (simp add: driver_rows_def)
  show ?case
  proof (cases "arrays = []")
    case True
    then have "collect_drivers s ds acc = Inr c"
      using Cons.prems a by (simp add: collect_drivers_Cons)
    from Cons.IH[OF this] show ?thesis using rows True by auto
  next
    case False
    then have "collect_drivers s ds (add_driver (s_abbreviation s d) arrays acc) = Inr c"
      using Cons.prems a by (simp add: collect_drivers_Cons)
    from Cons.IH[OF this] show ?thesis using rows False by (auto simp: keys_add_driver)
  qed
qed

subsection \<open>The timeline and the frames\<close>







lemma add_weather_length:
  "length frames = length timeline \<Longrightarrow>
   length (add_weather_to_frames w timeline frames) = length frames"
  by (simp add: add_weather_to_frames_def split: option.splits)

lemma add_weather_nth:
  assumes "length frames = length timeline" and "k < length frames"
  shows "f_t (add_weather_to_frames w timeline frames ! k) = f_t (frames ! k)"
    and "f_drivers (add_weather_to_frames w timeline frames ! k) = f_drivers (frames ! k)"
  using assms by (simp_all add: add_weather_to_frames_def split: option.splits)

lemma process_frames_Inr:
  assumes "process_frames s track fps = Inr frames"
  obtains c t_min t_max where
    "collect_drivers s (s_drivers s) \<lparr>all_data = [], global_t_min = None, global_t_max = None\<rparr>
       = Inr c"
    and "global_t_min c = Some t_min" and "global_t_max c = Some t_max" and "fps \<noteq> 0"
    and "frames = add_weather_to_frames (s_weather_data s)
                    (arange t_min t_max (1 / real_of_int fps))
                    (map (build_frame (all_data c) track t_min)
                       (arange t_min t_max (1 / real_of_int fps)))"
  using assms
  by (auto simp: process_frames_def Let_def split: sum.splits if_splits option.splits)


text \<open>The concrete sessions, evaluated.\<close>

lemma ver_and_empty_ham_collected:
  "collect_drivers (session_of_laps ver_and_empty_ham) [''1'', ''44'']
     \<lparr>all_data = [], global_t_min = None, global_t_max = None\<rparr>
   = Inr \<lparr>all_data = [(''VER'', ver_rows)], global_t_min = Some 10, global_t_max = Some (101 / 10)\<rparr>"
  by (simp add: collect_drivers_Cons add_driver_def session_of_laps_def ver_and_empty_ham_def ver_laps_def
       pick_drivers_def mk_lap_def ver_rows_def lap_samples_def mk_row_def amin_def amax_def)

lemma arange_ver: "arange 10 (101 / 10) (1 / 25) = [10, 10 + 1 / 25, 10 + 2 / 25]"
  by (simp add: arange_def upt_rec)

lemma ver_and_empty_ham_frames:
  "\<exists>frames. process_frames (session_of_laps ver_and_empty_ham) tc FPS = Inr frames
      \<and> map f_t frames = [0, 1 / 25, 2 / 25]
      \<and> map (map fst \<circ> f_drivers) frames = [[''VER''], [''VER''], [''VER'']]"
proof -
  have d: "s_drivers (session_of_laps ver_and_empty_ham) = [''1'', ''44'']"
    "s_weather_data (session_of_laps ver_and_empty_ham) = None"
    by (simp_all add: session_of_laps_def)
  have r: "py_round 0 3 = 0" "py_round (1 / 25) 3 = 1 / 25" "py_round (2 / 25) 3 = 2 / 25"
    by (simp_all add: py_round_def round_half_even_def)
  show ?thesis
    by (simp add: process_frames_def d ver_and_empty_ham_collected FPS_def arange_ver add_weather_to_frames_def
          build_frame_def r)
qed

lemma session_of_laps_colors:
  "extract_driver_colors (session_of_laps laps)
     = [(''VER'', \<lparr>c_hex = ''#3671c6'', c_rgb = [54, 113, 198]\<rparr>),
        (''HAM'', \<lparr>c_hex = ''#27f4d2'', c_rgb = [39, 244, 210]\<rparr>)]"
  by (simp add: extract_driver_colors_def session_of_laps_def parse_color_def int16_def
        is_space_def hex_digit_def Let_def)

lemma session_of_laps_track: "extract_track_coords (session_of_laps laps) = TrackEmpty"
  by (simp add: extract_track_coords_def session_of_laps_def)







subsection \<open>A session without telemetry\<close>

lemma no_telemetry_raises:
  assumes "\<forall>d\<in>set (s_drivers s). \<forall>l\<in>set (pick_drivers s d). lap_telemetry l = Inr []"
    and "fps \<noteq> 0"
  shows "process_frames s tc fps = Inl TypeError"
proof -
  have "\<forall>d\<in>set (s_drivers s). collect_laps (pick_drivers s d) [] = Inr []"
    using assms(1) by (auto intro: collect_laps_empty)
  then have "collect_drivers s (s_drivers s)
               \<lparr>all_data = [], global_t_min = None, global_t_max = None\<rparr>
             = Inr \<lparr>all_data = [], global_t_min = None, global_t_max = None\<rparr>"
    by (rule collect_drivers_none)
  then show ?thesis using assms(2) by (simp add: process_frames_def)
qed


text \<open>
  C6. The claim says that with no telemetry at all the synthesis completes with an empty
  frame sequence. On the session whose two drivers each have one lap with an empty
  telemetry table, the time bounds are still \<open>None\<close> after the loop, \<open>np.arange\<close> raises
  TypeError, the load fails, and the frames of the earlier session stay in place
  (the lemma \<open>no_telemetry_raises\<close> shows the same for every such session).
\<close>

theorem no_telemetry_type_error:
  "process_frames (session_of_laps no_telemetry_laps) TrackEmpty FPS = Inl TypeError
   \<and> load_and_process previous_state (Loaded (session_of_laps no_telemetry_laps))
       = (previous_state
            \<lparr>p_session := LoadedSession (session_of_laps no_telemetry_laps),
             p_driver_colors := extract_driver_colors (session_of_laps no_telemetry_laps),
             p_track_coords := TrackEmpty\<rparr>,
          Inl TypeError)
   \<and> p_frames (fst (load_and_process previous_state (Loaded (session_of_laps no_telemetry_laps))))
       = [bare_frame 0, bare_frame (1 / 25), bare_frame (2 / 25)]"
proof -
  have "\<forall>d\<in>set (s_drivers (session_of_laps no_telemetry_laps)).
          \<forall>l\<in>set (pick_drivers (session_of_laps no_telemetry_laps) d). lap_telemetry l = Inr []"
    by (simp add: session_of_laps_def no_telemetry_laps_def pick_drivers_def mk_lap_def)
  then have pf: "process_frames (session_of_laps no_telemetry_laps) TrackEmpty FPS = Inl TypeError"
    by (rule no_telemetry_raises) (simp add: FPS_def)
  then show ?thesis
    by (simp add: load_and_process_def session_of_laps_track Let_def previous_state_def three_frames_def)
qed

subsection \<open>A driver whose telemetry extraction raises\<close>

text \<open>
  C4, as amended. An error raised while extracting the telemetry of a lap of one of the
  session's drivers is not caught during frame synthesis: the synthesis raises, no frame
  is produced for any driver, and the load fails with the frame sequence left as it was
  (the session, the colours and the track are already those of the new session).
\<close>

theorem telemetry_error_aborts:
  assumes "d \<in> set (s_drivers s)" and "l \<in> set (pick_drivers s d)"
    and "lap_telemetry l = Inl e"
  shows "(\<exists>e'. process_frames s tc fps = Inl e')
       \<and> (\<exists>e'. load_and_process self (Loaded s)
                 = (self\<lparr>p_session := LoadedSession s,
                          p_driver_colors := extract_driver_colors s,
                          p_track_coords := extract_track_coords s\<rparr>, Inl e'))"
proof -
  obtain e1 where "collect_laps (pick_drivers s d) [] = Inl e1"
    using collect_laps_error[OF assms(2,3)] by blast
  from collect_drivers_error[OF assms(1) this]
  obtain e0 where "collect_drivers s (s_drivers s)
                     \<lparr>all_data = [], global_t_min = None, global_t_max = None\<rparr> = Inl e0"
    by blast
  then have pf: "\<exists>e'. process_frames s tc fps = Inl e'" for tc fps
    by (simp add: process_frames_def)
  then obtain e2 where "process_frames s (extract_track_coords s) FPS = Inl e2" by blast
  then have "load_and_process self (Loaded s)
                 = (self\<lparr>p_session := LoadedSession s,
                          p_driver_colors := extract_driver_colors s,
                          p_track_coords := extract_track_coords s\<rparr>, Inl e2)"
    by (simp add: load_and_process_def Let_def)
  with pf show ?thesis by blast
qed

theorem telemetry_error_aborts_witness:
  "''44'' \<in> set (s_drivers (session_of_laps ver_and_failing_ham))
   \<and> map lap_telemetry (pick_drivers (session_of_laps ver_and_failing_ham) ''44'') = [Inl ExternalError]
   \<and> (\<exists>e'. process_frames (session_of_laps ver_and_failing_ham) TrackUnset FPS = Inl e')"
proof -
  let ?l = "mk_lap ''44'' ''HAM'' 1 ''SOFT'' (Inl ExternalError)"
  have h1: "''44'' \<in> set (s_drivers (session_of_laps ver_and_failing_ham))"
    by (simp add: session_of_laps_def)
  have p: "pick_drivers (session_of_laps ver_and_failing_ham) ''44'' = [?l]"
    by (simp add: session_of_laps_def ver_and_failing_ham_def ver_laps_def pick_drivers_def mk_lap_def)
  have h2: "?l \<in> set (pick_drivers (session_of_laps ver_and_failing_ham) ''44'')"
    by (simp add: p)
  have h3: "lap_telemetry ?l = Inl ExternalError" by (simp add: mk_lap_def)
  from telemetry_error_aborts [OF h1 h2 h3, of TrackUnset FPS]
  have "\<exists>e'. process_frames (session_of_laps ver_and_failing_ham) TrackUnset FPS = Inl e'"
    by blast
  then show ?thesis using h1 p h3 by simp
qed

text \<open>
  The claim C4 as it is stated fails: VER has telemetry, the extraction for the lap of HAM
  raises, and the synthesis returns that error instead of the frames of VER.
\<close>

theorem telemetry_error_not_isolated_counterexample:
  "driver_rows (session_of_laps ver_and_failing_ham) ''1'' \<noteq> []
   \<and> process_frames (session_of_laps ver_and_failing_ham) TrackUnset FPS = Inl ExternalError"
  by (simp add: process_frames_def collect_drivers_Cons add_driver_def session_of_laps_def
        ver_and_failing_ham_def ver_laps_def pick_drivers_def mk_lap_def driver_rows_def
        lap_samples_def)

subsection \<open>A driver without telemetry rows\<close>

lemma zero_rows:
  assumes "\<forall>l\<in>set (pick_drivers s d). lap_telemetry l = Inr []"
  shows "collect_laps (pick_drivers s d) [] = Inr []" and "driver_rows s d = []"
  using collect_laps_empty[OF assms, of "[]"] by (simp_all add: driver_rows_def)

lemma process_frames_without_driver:
  assumes "collect_laps (pick_drivers s d) [] = Inr []"
  shows "process_frames (s\<lparr>s_drivers := removeAll d (s_drivers s)\<rparr>) tc fps = process_frames s tc fps"
proof -
  let ?s = "s\<lparr>s_drivers := removeAll d (s_drivers s)\<rparr>"
  have c: "collect_drivers ?s (s_drivers ?s) acc = collect_drivers s (s_drivers s) acc" for acc
    by (simp add: collect_drivers_session_drivers collect_drivers_skip[OF assms])
  have w: "s_weather_data ?s = s_weather_data s" by simp
  show ?thesis unfolding process_frames_def c w ..
qed

lemma frame_driver_keys:
  assumes "process_frames s tc fps = Inr frames" and "f \<in> set frames"
  shows "fst ` set (f_drivers f) = s_abbreviation s ` {d \<in> set (s_drivers s). driver_rows s d \<noteq> []}"
proof -
  from assms(1) obtain c t_min t_max where
    c: "collect_drivers s (s_drivers s)
          \<lparr>all_data = [], global_t_min = None, global_t_max = None\<rparr> = Inr c"
    and fr: "frames = add_weather_to_frames (s_weather_data s)
                    (arange t_min t_max (1 / real_of_int fps))
                    (map (build_frame (all_data c) tc t_min)
                       (arange t_min t_max (1 / real_of_int fps)))"
    by (rule process_frames_Inr)
  let ?tl = "arange t_min t_max (1 / real_of_int fps)"
  let ?raw = "map (build_frame (all_data c) tc t_min) ?tl"
  have len: "length frames = length ?tl" unfolding fr by (simp add: add_weather_length)
  from assms(2) obtain k where k: "k < length frames" "f = frames ! k"
    by (auto simp: in_set_conv_nth)
  have "f_drivers f = f_drivers (?raw ! k)"
    unfolding k(2) fr using k(1) len by (intro add_weather_nth(2)) simp_all
  also have "\<dots> = map (\<lambda>(code, d). (code, driver_snapshot tc d (?tl ! k))) (all_data c)"
    using k(1) len by (simp add: build_frame_def)
  finally have "fst ` set (f_drivers f) = fst ` set (all_data c)" by force
  then show ?thesis using collect_drivers_keys[OF c] by simp
qed

lemma load_summary_drivers:
  assumes "load_and_process self (Loaded s) = (self', Inr sm)"
  shows "sm_drivers sm = map fst (extract_driver_colors s)"
  using assms by (auto simp: load_and_process_def Let_def split: sum.splits)

text \<open>
  C5, as amended. For a driver all of whose laps have an empty telemetry table (or who
  has no lap): frame synthesis gives the same result as for the session without that
  driver, so the other drivers' snapshots do not depend on the driver's presence; every
  key of every frame's driver map is the abbreviation of another driver, one that has
  telemetry rows; and the \<open>drivers\<close> list of the load summary is the list of keys of the
  colour table, whatever the telemetry.
\<close>

theorem zero_telemetry_driver:
  assumes "\<forall>l\<in>set (pick_drivers s d). lap_telemetry l = Inr []"
  shows "process_frames (s\<lparr>s_drivers := removeAll d (s_drivers s)\<rparr>) tc fps = process_frames s tc fps
       \<and> (\<forall>frames. process_frames s tc fps = Inr frames \<longrightarrow>
            (\<forall>f\<in>set frames. \<forall>code\<in>fst ` set (f_drivers f).
               \<exists>d'\<in>set (s_drivers s). d' \<noteq> d \<and> driver_rows s d' \<noteq> []
                                        \<and> s_abbreviation s d' = code))
       \<and> (\<forall>self' sm. load_and_process self (Loaded s) = (self', Inr sm) \<longrightarrow>
            sm_drivers sm = map fst (extract_driver_colors s))"
proof -
  note z = zero_rows[OF assms]
  have a: "process_frames (s\<lparr>s_drivers := removeAll d (s_drivers s)\<rparr>) tc fps
             = process_frames s tc fps"
    by (rule process_frames_without_driver[OF z(1)])
  have b: "\<forall>frames. process_frames s tc fps = Inr frames \<longrightarrow>
            (\<forall>f\<in>set frames. \<forall>code\<in>fst ` set (f_drivers f).
               \<exists>d'\<in>set (s_drivers s). d' \<noteq> d \<and> driver_rows s d' \<noteq> []
                                        \<and> s_abbreviation s d' = code)"
  proof (intro allI impI ballI)
    fix frames f code
    assume "process_frames s tc fps = Inr frames" "f \<in> set frames"
      and "code \<in> fst ` set (f_drivers f)"
    then have "code \<in> s_abbreviation s ` {d \<in> set (s_drivers s). driver_rows s d \<noteq> []}"
      using frame_driver_keys by blast
    then obtain d' where "d' \<in> set (s_drivers s)" "driver_rows s d' \<noteq> []"
      "s_abbreviation s d' = code" by auto
    moreover have "d' \<noteq> d" using z(2) calculation(2) by auto
    ultimately show "\<exists>d'\<in>set (s_drivers s). d' \<noteq> d \<and> driver_rows s d' \<noteq> []
                                        \<and> s_abbreviation s d' = code" by blast
  qed
  have c: "\<forall>self' sm. load_and_process self (Loaded s) = (self', Inr sm) \<longrightarrow>
            sm_drivers sm = map fst (extract_driver_colors s)"
    using load_summary_drivers by blast
  from a b c show ?thesis by blast
qed

theorem zero_telemetry_driver_witness:
  "map lap_telemetry (pick_drivers (session_of_laps ver_and_empty_ham) ''44'') = [Inr []]
   \<and> process_frames ((session_of_laps ver_and_empty_ham)
          \<lparr>s_drivers := removeAll ''44'' (s_drivers (session_of_laps ver_and_empty_ham))\<rparr>)
        TrackUnset FPS
      = process_frames (session_of_laps ver_and_empty_ham) TrackUnset FPS
   \<and> (\<exists>frames. process_frames (session_of_laps ver_and_empty_ham) TrackUnset FPS = Inr frames
         \<and> map (map fst \<circ> f_drivers) frames = [[''VER''], [''VER''], [''VER'']])"
proof -
  have p: "pick_drivers (session_of_laps ver_and_empty_ham) ''44''
             = [mk_lap ''44'' ''HAM'' 1 ''SOFT'' (Inr [])]"
    by (simp add: session_of_laps_def ver_and_empty_ham_def ver_laps_def pick_drivers_def mk_lap_def)
  have h: "\<forall>l\<in>set (pick_drivers (session_of_laps ver_and_empty_ham) ''44''). lap_telemetry l = Inr []"
    by (simp add: p mk_lap_def)
  from zero_telemetry_driver [OF h, of TrackUnset FPS]
  have "process_frames ((session_of_laps ver_and_empty_ham)
          \<lparr>s_drivers := removeAll ''44'' (s_drivers (session_of_laps ver_and_empty_ham))\<rparr>)
        TrackUnset FPS
      = process_frames (session_of_laps ver_and_empty_ham) TrackUnset FPS"
    by blast
  moreover have "map lap_telemetry (pick_drivers (session_of_laps ver_and_empty_ham) ''44'') = [Inr []]"
    by (simp add: p mk_lap_def)
  moreover from ver_and_empty_ham_frames[of TrackUnset] obtain frames where
    "process_frames (session_of_laps ver_and_empty_ham) TrackUnset FPS = Inr frames
      \<and> map f_t frames = [0, 1 / 25, 2 / 25]
      \<and> map (map fst \<circ> f_drivers) frames = [[''VER''], [''VER''], [''VER'']]" ..
  ultimately show ?thesis by (intro conjI exI[of _ frames]) simp_all
qed

text \<open>
  The claim C5 as it is stated fails for the \<open>drivers\<close> list: HAM has a lap with an empty
  telemetry table and a colour in the mapping; the load succeeds and its summary lists
  HAM among the drivers.
\<close>

theorem summary_lists_driver_without_telemetry_counterexample:
  "driver_rows (session_of_laps ver_and_empty_ham) ''44'' = []
   \<and> s_abbreviation (session_of_laps ver_and_empty_ham) ''44'' = ''HAM''
   \<and> (\<exists>self' sm. load_and_process init (Loaded (session_of_laps ver_and_empty_ham)) = (self', Inr sm)
         \<and> sm_drivers sm = [''VER'', ''HAM''])"
proof -
  from ver_and_empty_ham_frames[of TrackEmpty] obtain frames where
    "process_frames (session_of_laps ver_and_empty_ham) TrackEmpty FPS = Inr frames
      \<and> map f_t frames = [0, 1 / 25, 2 / 25]
      \<and> map (map fst \<circ> f_drivers) frames = [[''VER''], [''VER''], [''VER'']]" ..
  then have pf: "process_frames (session_of_laps ver_and_empty_ham) TrackEmpty FPS = Inr frames"
    by simp
  have laps: "s_laps (session_of_laps ver_and_empty_ham) \<noteq> []"
    by (simp add: session_of_laps_def ver_and_empty_ham_def)
  have "\<exists>self' sm. load_and_process init (Loaded (session_of_laps ver_and_empty_ham)) = (self', Inr sm)
         \<and> sm_drivers sm = [''VER'', ''HAM'']"
    using pf laps by (simp add: load_and_process_def session_of_laps_track session_of_laps_colors Let_def max_lap_number_def)
  moreover have "driver_rows (session_of_laps ver_and_empty_ham) ''44'' = []"
    by (simp add: driver_rows_def session_of_laps_def ver_and_empty_ham_def ver_laps_def
          pick_drivers_def mk_lap_def)
  moreover have "s_abbreviation (session_of_laps ver_and_empty_ham) ''44'' = ''HAM''"
    by (simp add: session_of_laps_def)
  ultimately show ?thesis by blast
qed

subsection \<open>A load that fails\<close>




end
